theory Spec2Isabelle
  imports Complex_Main
begin

section \<open>Strings as the message handlers use them\<close>

text \<open>
  Message texts are modelled as \<open>string\<close>. The helpers below are the JavaScript string
  operations the handlers call: \<open>startsWith\<close>, \<open>split\<close>, \<open>trim\<close>, \<open>toUpperCase\<close> and the
  two character classes \<open>\d\<close> and \<open>\s\<close> of the regular expressions. White space is the
  JavaScript white space that fits in one \<open>char\<close>; \<open>toUpperCase\<close> maps the letters a-z.
\<close>

definition startsWith :: "string \<Rightarrow> string \<Rightarrow> bool" where
  "startsWith s p = (take (length p) s = p)"

fun split :: "char \<Rightarrow> string \<Rightarrow> string list" where
  "split c [] = [[]]"
| "split c (x # xs) =
     (if x = c then [] # split c xs
      else (case split c xs of [] \<Rightarrow> [[x]] | p # ps \<Rightarrow> (x # p) # ps))"

definition is_space :: "char \<Rightarrow> bool" where
  "is_space c = (c \<in> set [CHR '' '', CHR 0x09, CHR 0x0A, CHR 0x0B, CHR 0x0C, CHR 0x0D, CHR 0xA0])"

definition is_digit :: "char \<Rightarrow> bool" where
  "is_digit c = (c \<in> set ''0123456789'')"

definition trim :: "string \<Rightarrow> string" where
  "trim s = rev (dropWhile is_space (rev (dropWhile is_space s)))"

definition upper_char :: "char \<Rightarrow> char" where
  "upper_char c =
     (case map_of (zip ''abcdefghijklmnopqrstuvwxyz'' ''ABCDEFGHIJKLMNOPQRSTUVWXYZ'') c of
        None \<Rightarrow> c | Some u \<Rightarrow> u)"

definition toUpperCase :: "string \<Rightarrow> string" where
  "toUpperCase s = map upper_char s"

text \<open>The test \<open>/^\d+$/\<close>: one or more digits and nothing else.\<close>

definition all_digits :: "string \<Rightarrow> bool" where
  "all_digits s = (s \<noteq> [] \<and> list_all is_digit s)"

text \<open>The chain \<open>.map(part => part.trim()).filter(part => part !== '')\<close>.\<close>

definition trim_nonempty :: "string list \<Rightarrow> string list" where
  "trim_nonempty ps = filter (\<lambda>p. p \<noteq> []) (map trim ps)"

section \<open>The product command parser\<close>

datatype currency = CUP | MLC

text \<open>
  Prices are kept as the exact decimal value of the digits matched; the source holds the
  nearest double. \<open>parseFloat\<close> is written for the strings the price expression can
  match (digits, an optional dot, digits); \<open>None\<close> is NaN.
\<close>

definition digit_val :: "char \<Rightarrow> nat" where
  "digit_val c = of_char c - 48"

definition nat_of_digits :: "string \<Rightarrow> nat" where
  "nat_of_digits ds = foldl (\<lambda>n c. 10 * n + digit_val c) 0 ds"

definition parseFloat :: "string \<Rightarrow> rat option" where
  "parseFloat s =
     (let d1 = takeWhile is_digit s; r = dropWhile is_digit s
      in if d1 = [] then None
         else (case r of
                 c # cs \<Rightarrow>
                   (if c = CHR ''.''
                    then (let d2 = takeWhile is_digit cs
                          in Some (of_nat (nat_of_digits d1)
                                   + of_nat (nat_of_digits d2) / 10 ^ length d2))
                    else Some (of_nat (nat_of_digits d1)))
               | [] \<Rightarrow> Some (of_nat (nat_of_digits d1))))"

text \<open>\<open>str.replace(',', '.')\<close> replaces the first comma only.\<close>

fun replace_comma :: "string \<Rightarrow> string" where
  "replace_comma [] = []"
| "replace_comma (c # cs) = (if c = CHR '','' then CHR ''.'' # cs else c # replace_comma cs)"

text \<open>
  The expression \<open>/(\d+[,.]?\d*)\s*(CUP|MLC)/gi\<close> tried at the head of a string. Every
  quantifier is greedy, and giving characters back never helps: a shorter attempt stops
  in front of a digit, a separator or a white space, where no currency name starts. The
  result is the first group, the currency and the text behind the match.
\<close>

definition match_currency :: "string \<Rightarrow> (currency \<times> string) option" where
  "match_currency s =
     (if toUpperCase (take 3 s) = ''CUP'' then Some (CUP, drop 3 s)
      else if toUpperCase (take 3 s) = ''MLC'' then Some (MLC, drop 3 s)
      else None)"

definition priceRegex_at :: "string \<Rightarrow> ((string \<times> currency) \<times> string) option" where
  "priceRegex_at s =
     (let d1 = takeWhile is_digit s; r1 = dropWhile is_digit s
      in if d1 = [] then None
         else (let sep = (case r1 of [] \<Rightarrow> []
                          | c # cs \<Rightarrow> if c = CHR '','' \<or> c = CHR ''.'' then [c] else []);
                   r2 = drop (length sep) r1;
                   d2 = takeWhile is_digit r2;
                   r4 = dropWhile is_space (dropWhile is_digit r2)
               in (case match_currency r4 of
                     None \<Rightarrow> None
                   | Some (cur, rest) \<Rightarrow> Some ((d1 @ sep @ d2, cur), rest))))"

lemma match_currency_shorter:
  "match_currency s = Some (cur, rest) \<Longrightarrow> length rest \<le> length s"
  by (auto simp: match_currency_def split: if_splits)

lemma priceRegex_at_shorter:
  assumes "priceRegex_at s = Some (m, rest)"
  shows "length rest < length s"
proof -
  let ?d1 = "takeWhile is_digit s"
  let ?r1 = "dropWhile is_digit s"
  from assms have d1: "?d1 \<noteq> []"
    by (auto simp: priceRegex_at_def Let_def split: if_splits)
  obtain sep where sep: "sep = (case ?r1 of [] \<Rightarrow> []
        | c # cs \<Rightarrow> if c = CHR '','' \<or> c = CHR ''.'' then [c] else [])"
    by simp
  let ?r2 = "drop (length sep) ?r1"
  let ?r4 = "dropWhile is_space (dropWhile is_digit ?r2)"
  from assms d1 sep obtain cur where "match_currency ?r4 = Some (cur, rest)"
    by (auto simp: priceRegex_at_def Let_def split: option.splits)
  then have "length rest \<le> length ?r4"
    by (rule match_currency_shorter)
  also have "\<dots> \<le> length (dropWhile is_digit ?r2)"
    by (rule length_dropWhile_le)
  also have "\<dots> \<le> length ?r2"
    by (rule length_dropWhile_le)
  also have "\<dots> \<le> length ?r1"
    by simp
  also have "\<dots> < length s"
  proof -
    have "length s = length ?d1 + length ?r1"
      by (metis length_append takeWhile_dropWhile_id)
    with d1 show ?thesis by simp
  qed
  finally show ?thesis .
qed

text \<open>
  The loop \<open>while ((match = priceRegex.exec(priceString)) !== null)\<close>: the expression is
  tried at each position from the left, and after a match the search goes on behind it.
\<close>

function priceRegex_exec :: "string \<Rightarrow> (string \<times> currency) list" where
  "priceRegex_exec [] = []"
| "priceRegex_exec (c # cs) =
     (case priceRegex_at (c # cs) of
        None \<Rightarrow> priceRegex_exec cs
      | Some (m, rest) \<Rightarrow> m # priceRegex_exec rest)"
  by pat_completeness auto
termination
  by (relation "measure length") (auto dest: priceRegex_at_shorter)

text \<open>The body of the loop: a value that parses overwrites the price of its currency.\<close>

fun price_step :: "rat option \<times> rat option \<Rightarrow> string \<times> currency \<Rightarrow> rat option \<times> rat option" where
  "price_step (cup, mlc) (str, cur) =
     (case parseFloat (replace_comma str) of
        None \<Rightarrow> (cup, mlc)
      | Some v \<Rightarrow> (case cur of CUP \<Rightarrow> (Some v, mlc) | MLC \<Rightarrow> (cup, Some v)))"

record product_command =
  cmd_id :: string
  cmd_name :: string
  cmd_description :: string
  cmd_priceCUP :: "rat option"
  cmd_priceMLC :: "rat option"

text \<open>\<open>text.split('*').slice(1, -1)\<close>, trimmed, empty parts dropped.\<close>

definition trimmedParts :: "string \<Rightarrow> string list" where
  "trimmedParts text = trim_nonempty (butlast (tl (split (CHR ''*'') text)))"

definition parseProductCommand :: "string \<Rightarrow> product_command option" where
  "parseProductCommand text =
     (if text = [] \<or> \<not> startsWith text ''*DULCES*'' then None
      else (case trimmedParts text of
              p0 # pid # pname # pdesc # priceString # others \<Rightarrow>
                (if toUpperCase p0 \<noteq> ''DULCES'' then None
                 else if \<not> all_digits pid then None
                 else (let (priceCUP, priceMLC) =
                             foldl price_step (None, None) (priceRegex_exec priceString)
                       in if priceCUP = None \<and> priceMLC = None then None
                          else Some \<lparr>cmd_id = pid, cmd_name = pname, cmd_description = pdesc,
                                     cmd_priceCUP = priceCUP, cmd_priceMLC = priceMLC\<rparr>))
            | _ \<Rightarrow> None))"

section \<open>Chat history and its storage\<close>

text \<open>
  \<open>localStorage\<close> is modelled by the families of keys the application writes: the ticker
  text, the payment card, one product record per id (\<open>product_data_<id>\<close>) and the chat
  history saved under its key. The families have different key prefixes, so they are
  separate fields. A value read back is the value written (\<open>JSON.parse\<close> of
  \<open>JSON.stringify\<close>), and the storage calls are taken not to throw.
\<close>

text \<open>
  The type of an entry is the string the caller passes (\<open>'sent'\<close>, \<open>'received'\<close>,
  \<open>'system'\<close>, \<open>'error'\<close> by the documentation, any string by the code).
\<close>

record chat_entry =
  e_text :: "string option"
  e_type :: string
  e_sender :: string
  e_timestamp :: int
  e_imageUrl :: "string option"

record product_data =
  p_name :: string
  p_description :: string
  p_priceCUP :: "rat option"
  p_priceMLC :: "rat option"
  p_imageUrl :: "string option"

record storage =
  st_ticker :: "string option"
  st_mlcCard :: "string option"
  st_products :: "string \<rightharpoonup> product_data"
  st_chat :: "string \<rightharpoonup> chat_entry list"

text \<open>\<open>x || null\<close> on an optional string: the empty string is falsy.\<close>

definition or_null :: "string option \<Rightarrow> string option" where
  "or_null x = (case x of None \<Rightarrow> None | Some v \<Rightarrow> if v = [] then None else Some v)"

definition truthy_str :: "string option \<Rightarrow> bool" where
  "truthy_str x = (or_null x \<noteq> None)"

definition saveChatHistory :: "string \<Rightarrow> chat_entry list \<Rightarrow> storage \<Rightarrow> storage" where
  "saveChatHistory key history st =
     (let maxStoredMessages = 200;
          historyToSave =
            (if length history > maxStoredMessages
             then drop (length history - maxStoredMessages) history
             else history)
      in st\<lparr>st_chat := (st_chat st)(key \<mapsto> historyToSave)\<rparr>)"

text \<open>
  \<open>addMessageToChat\<close> mutates the array it is given and saves it; the model returns
  the array and the storage.
\<close>

definition addMessageToChat ::
  "string option \<Rightarrow> string \<Rightarrow> string \<Rightarrow> int \<Rightarrow> string option \<Rightarrow> bool \<Rightarrow>
   chat_entry list \<Rightarrow> string \<Rightarrow> storage \<Rightarrow> chat_entry list \<times> storage" where
  "addMessageToChat text type sender timestamp imageUrl save chatHistory storageKey st =
     (if save \<and> type \<noteq> ''system'' \<and> type \<noteq> ''error'' \<and> storageKey \<noteq> []
      then (let isDuplicate =
                  (case rev chatHistory of
                     [] \<Rightarrow> False
                   | lastMessage # _ \<Rightarrow>
                       e_timestamp lastMessage = timestamp \<and>
                       e_sender lastMessage = sender \<and>
                       e_type lastMessage = type \<and>
                       e_text lastMessage = or_null text \<and>
                       e_imageUrl lastMessage = or_null imageUrl)
            in if \<not> isDuplicate
               then (let pushed = chatHistory @
                           [\<lparr>e_text = or_null text, e_type = type, e_sender = sender,
                             e_timestamp = timestamp, e_imageUrl = or_null imageUrl\<rparr>]
                     in (pushed, saveChatHistory storageKey pushed st))
               else (chatHistory, st))
      else (chatHistory, st))"

text \<open>\<open>clearChat\<close> removes the saved history and returns the empty array.\<close>

definition clearChat :: "string \<Rightarrow> storage \<Rightarrow> chat_entry list \<times> storage" where
  "clearChat storageKey st = ([], st\<lparr>st_chat := (st_chat st)(storageKey := None)\<rparr>)"

section \<open>The product grid and the product records\<close>

text \<open>
  A card of the grid carries its \<open>data-product-id\<close>, the text of its heading and of its
  paragraph, and the source of its image when it has one. The price label and the
  quantity controls are display only. The grid is \<open>None\<close> when the page has no
  \<open>.product-grid\<close> element.
\<close>

record card =
  card_id :: string
  card_name :: string
  card_description :: string
  card_img :: "string option"

definition createProductCardElement :: "string \<Rightarrow> product_data \<Rightarrow> card" where
  "createProductCardElement productId d =
     \<lparr>card_id = productId, card_name = p_name d, card_description = p_description d,
      card_img = or_null (p_imageUrl d)\<rparr>"

text \<open>\<open>parseInt(id, 10)\<close> on the ids of cards, which are digit strings.\<close>

definition parseInt :: "string \<Rightarrow> nat" where
  "parseInt s = nat_of_digits (takeWhile is_digit s)"

text \<open>The insertion loop of \<open>updateProductCard\<close>: before the first card with a larger id.\<close>

fun insert_card :: "card \<Rightarrow> card list \<Rightarrow> card list" where
  "insert_card c [] = [c]"
| "insert_card c (existingCard # cs) =
     (if parseInt (card_id c) < parseInt (card_id existingCard)
      then c # existingCard # cs
      else existingCard # insert_card c cs)"

text \<open>Updating the first card that has the id (\<open>querySelector\<close> returns the first).\<close>

fun update_first :: "string \<Rightarrow> product_data \<Rightarrow> card list \<Rightarrow> card list" where
  "update_first productId d [] = []"
| "update_first productId d (c # cs) =
     (if card_id c = productId
      then c\<lparr>card_name := p_name d, card_description := p_description d,
             card_img := or_null (p_imageUrl d)\<rparr> # cs
      else c # update_first productId d cs)"

definition updateProductCard :: "string \<Rightarrow> product_data \<Rightarrow> card list option \<Rightarrow> card list option" where
  "updateProductCard productId d productGrid =
     (case productGrid of
        None \<Rightarrow> None
      | Some cards \<Rightarrow>
          (if list_ex (\<lambda>c. card_id c = productId) cards
           then Some (update_first productId d cards)
           else Some (insert_card (createProductCardElement productId d) cards)))"

definition saveProductData :: "string \<Rightarrow> product_data \<Rightarrow> storage \<Rightarrow> storage" where
  "saveProductData productId d st =
     (if productId = [] then st
      else st\<lparr>st_products := (st_products st)(productId \<mapsto> d)\<rparr>)"

definition loadProductData :: "string \<Rightarrow> storage \<Rightarrow> product_data option" where
  "loadProductData productId st = st_products st productId"

text \<open>\<open>(index + 1).toString()\<close>.\<close>

fun string_of_nat :: "nat \<Rightarrow> string" where
  "string_of_nat n =
     (if n < 10 then [char_of (48 + n)]
      else string_of_nat (n div 10) @ [char_of (48 + n mod 10)])"

declare string_of_nat.simps [simp del]

text \<open>
  Phase one of \<open>renumberProducts\<close>: the card at index \<open>i\<close> gets the id \<open>i + 1\<close>; for each
  card whose id changes, the old id, the new id and the record to move are noted. The
  record is the stored one, or one rebuilt from the card when nothing is stored.
\<close>

record renumber_update =
  oldId :: string
  newId :: string
  oldData :: product_data

definition card_data :: "card \<Rightarrow> product_data" where
  "card_data c = \<lparr>p_name = card_name c, p_description = card_description c,
                  p_priceCUP = None, p_priceMLC = None, p_imageUrl = card_img c\<rparr>"

fun renumber_cards :: "nat \<Rightarrow> card list \<Rightarrow> card list" where
  "renumber_cards i [] = []"
| "renumber_cards i (c # cs) = c\<lparr>card_id := string_of_nat (i + 1)\<rparr> # renumber_cards (i + 1) cs"

definition record_to_move :: "storage \<Rightarrow> card \<Rightarrow> product_data" where
  "record_to_move st c =
     (case loadProductData (card_id c) st of None \<Rightarrow> card_data c | Some d \<Rightarrow> d)"

fun renumber_updates :: "storage \<Rightarrow> nat \<Rightarrow> card list \<Rightarrow> renumber_update list" where
  "renumber_updates st i [] = []"
| "renumber_updates st i (c # cs) =
     (if card_id c \<noteq> string_of_nat (i + 1)
      then \<lparr>oldId = card_id c, newId = string_of_nat (i + 1), oldData = record_to_move st c\<rparr>
             # renumber_updates st (i + 1) cs
      else renumber_updates st (i + 1) cs)"

text \<open>
  Phase two: every old key that is not also a key to save is removed, then every moved
  record is saved under its new key.
\<close>

definition renumber_storage :: "renumber_update list \<Rightarrow> storage \<Rightarrow> storage" where
  "renumber_storage updates st =
     (let removed = (\<lambda>k. if k \<in> set (map oldId updates) \<and> k \<notin> set (map newId updates)
                          then None else st_products st k);
          saved = foldl (\<lambda>m u. m(newId u \<mapsto> oldData u)) removed updates
      in st\<lparr>st_products := saved\<rparr>)"

definition renumberProducts :: "card list option \<times> storage \<Rightarrow> card list option \<times> storage" where
  "renumberProducts gs =
     (case fst gs of
        None \<Rightarrow> gs
      | Some currentCards \<Rightarrow>
          (if currentCards = [] then gs
           else (let updates = renumber_updates (snd gs) 0 currentCards
                 in (Some (renumber_cards 0 currentCards),
                     if updates \<noteq> [] then renumber_storage updates (snd gs) else snd gs))))"

text \<open>\<open>productCard.remove()\<close> for the first card that has the id.\<close>

fun remove_first :: "string \<Rightarrow> card list \<Rightarrow> card list" where
  "remove_first productId [] = []"
| "remove_first productId (c # cs) =
     (if card_id c = productId then cs else c # remove_first productId cs)"

definition removeItem_product :: "string \<Rightarrow> storage \<Rightarrow> storage" where
  "removeItem_product productId st = st\<lparr>st_products := (st_products st)(productId := None)\<rparr>"

definition deleteProduct :: "string \<Rightarrow> card list option \<times> storage \<Rightarrow> card list option \<times> storage" where
  "deleteProduct productIdToDelete gs =
     (case fst gs of
        None \<Rightarrow> gs
      | Some cards \<Rightarrow>
          (if list_ex (\<lambda>c. card_id c = productIdToDelete) cards
           then renumberProducts (Some (remove_first productIdToDelete cards),
                                  removeItem_product productIdToDelete (snd gs))
           else (if loadProductData productIdToDelete (snd gs) \<noteq> None
                 then renumberProducts (fst gs, removeItem_product productIdToDelete (snd gs))
                 else gs)))"

section \<open>The application state and the dispatcher\<close>

datatype bot_type = Primary | Auxiliary

datatype log_level = LogInfo | LogWarn | LogError | LogSystem

text \<open>
  The handle of a poll loop (\<open>primaryUpdateInterval\<close>): \<open>null\<close>, \<open>true\<close> while starting,
  or the number \<open>setTimeout\<close> returned.
\<close>

datatype handle = HNull | HTrue | HTimer nat

record config =
  MAIN_CHAT_ID :: string
  AUX_CHAT_ID :: "string option"
  EFFECTIVE_AUX_BOT_TOKEN :: "string option"
  PRIMARY_FILE_BASE_URL :: string

definition LOCAL_STORAGE_KEY :: "config \<Rightarrow> string" where
  "LOCAL_STORAGE_KEY cfg = ''telegramChatHistory_'' @ MAIN_CHAT_ID cfg"

text \<open>
  A message as the handlers read it: the sender's names, \<open>chat.id.toString()\<close>, the date,
  the text, the caption, the file ids of the photo variants, and whether it announces a
  member who joined or left (\<open>new_chat_participant || left_chat_participant\<close>).
\<close>

record message =
  m_first_name :: "string option"
  m_username :: "string option"
  m_chat_id :: string
  m_date :: int
  m_text :: "string option"
  m_caption :: "string option"
  m_photo :: "string list option"
  m_participant :: bool

record update =
  update_id :: int
  u_message :: "message option"

text \<open>
  The state has two parts. \<open>page_state\<close> is what the message handlers read and write:
  the chat history, the storage and what the display shows (grid, ticker, notifications,
  roulette button); \<open>systemLog\<close> keeps the level and the sender of each
  \<open>logSystemMessage\<close> call. \<open>app_state\<close> adds the module variables of the poll loops,
  which no handler mentions: the cursors, the handles, the bot identities, the connection
  indicator, the pending \<open>setTimeout\<close> calls (handle, loop, delay) and the offsets sent
  with \<open>getUpdates\<close>. The page is taken to have its ticker and its notification
  container, and the connection indicator to change at once (the source changes it in
  the next animation frame).
\<close>

record page_state =
  chatHistory :: "chat_entry list"
  localStorage :: storage
  productGrid :: "card list option"
  tickerDisplay :: "string option"
  notifications :: "string list"
  rouletteButton :: "(string \<times> nat \<times> string) option"
  systemLog :: "(log_level \<times> string) list"

record app_state =
  lastPrimaryUpdateId :: int
  lastAuxiliaryUpdateId :: int
  primaryUpdateInterval :: handle
  auxiliaryUpdateInterval :: handle
  primaryBotInfo :: "string option"
  auxiliaryBotInfo :: "string option"
  disconnected :: bool
  timers :: "(nat \<times> bot_type \<times> nat) list"
  timer_count :: nat
  requests :: "(bot_type \<times> int) list"
  page :: page_state

definition logSystemMessage :: "log_level \<Rightarrow> string \<Rightarrow> page_state \<Rightarrow> page_state" where
  "logSystemMessage type sender s = s\<lparr>systemLog := systemLog s @ [(type, sender)]\<rparr>"

definition logPrefix :: "bot_type \<Rightarrow> string" where
  "logPrefix botType = (if botType = Primary then ''Sistema (Primario)'' else ''Sistema (Auxiliar)'')"

definition updateTickerDisplay :: "string \<Rightarrow> page_state \<Rightarrow> page_state" where
  "updateTickerDisplay text s =
     s\<lparr>tickerDisplay := (if text \<noteq> [] \<and> trim text \<noteq> [] then Some text else None)\<rparr>"

definition showNotification :: "string \<Rightarrow> page_state \<Rightarrow> page_state" where
  "showNotification msg s =
     (if msg = [] \<or> trim msg = [] then s
      else s\<lparr>notifications := notifications s @ [trim msg]\<rparr>)"

definition showRouletteButton :: "string \<Rightarrow> nat \<Rightarrow> string \<Rightarrow> page_state \<Rightarrow> page_state" where
  "showRouletteButton attemptsStr winHour code s = s\<lparr>rouletteButton := Some (attemptsStr, winHour, code)\<rparr>"

definition senderName :: "message \<Rightarrow> string" where
  "senderName m =
     (case or_null (m_first_name m) of
        Some n \<Rightarrow> n
      | None \<Rightarrow> (case or_null (m_username m) of Some n \<Rightarrow> n | None \<Rightarrow> ''Desconocido''))"

text \<open>\<open>text && text.startsWith(p)\<close> reads the text as empty when there is none.\<close>

definition str_or_empty :: "string option \<Rightarrow> string" where
  "str_or_empty x = (case x of None \<Rightarrow> [] | Some v \<Rightarrow> v)"

text \<open>The test \<open>/^[0-9\s-]+$/\<close>.\<close>

definition card_number_format :: "string \<Rightarrow> bool" where
  "card_number_format s = (s \<noteq> [] \<and> list_all (\<lambda>c. is_digit c \<or> is_space c \<or> c = CHR ''-'') s)"

text \<open>
  \<open>getFile\<close> is the request for a file path: its arguments are whether the auxiliary
  token is used and the file id; \<open>None\<close> stands for a request that throws or a response
  without \<open>file_path\<close>.
\<close>

type_synonym file_api = "bool \<Rightarrow> string \<Rightarrow> string option"

text \<open>\<open>photoArray && photoArray.length > 0\<close> reads a missing array as the empty one.\<close>

definition photo_or_empty :: "string list option \<Rightarrow> string list" where
  "photo_or_empty x = (case x of None \<Rightarrow> [] | Some v \<Rightarrow> v)"

text \<open>The best photo is the last variant; its path must be a non-empty string.\<close>

definition file_path_of :: "file_api \<Rightarrow> bool \<Rightarrow> string list \<Rightarrow> string option" where
  "file_path_of getFile useAux photoArray = or_null (getFile useAux (last photoArray))"

text \<open>
  The product branch of \<open>processUpdates\<close>: the image of the message when it resolves,
  otherwise the image of the stored record; then the card and the record are written.
\<close>

definition handleProductUpdate ::
  "config \<Rightarrow> file_api \<Rightarrow> bot_type \<Rightarrow> message \<Rightarrow> product_command \<Rightarrow> page_state \<Rightarrow> page_state" where
  "handleProductUpdate cfg getFile botType msg productUpdateData s =
     (let useAuxTokenForFileOps = (botType = Auxiliary \<and> truthy_str (EFFECTIVE_AUX_BOT_TOKEN cfg));
          fileBase = (if useAuxTokenForFileOps
                      then ''https://api.telegram.org/file/bot'' @ str_or_empty (EFFECTIVE_AUX_BOT_TOKEN cfg)
                      else PRIMARY_FILE_BASE_URL cfg);
          photoArray = photo_or_empty (m_photo msg);
          (productImageUrl, s1) =
            (if photoArray \<noteq> []
             then (case file_path_of getFile useAuxTokenForFileOps photoArray of
                     Some file_path \<Rightarrow> (Some (fileBase @ ''/'' @ file_path), s)
                   | None \<Rightarrow> (None, logSystemMessage LogWarn (logPrefix botType) s))
             else (None, s));
          existingImageUrl =
            (if productImageUrl = None
             then (case loadProductData (cmd_id productUpdateData) (localStorage s1) of
                     None \<Rightarrow> None
                   | Some existingData \<Rightarrow> or_null (p_imageUrl existingData))
             else None);
          finalProductData =
            \<lparr>p_name = cmd_name productUpdateData,
             p_description = cmd_description productUpdateData,
             p_priceCUP = cmd_priceCUP productUpdateData,
             p_priceMLC = cmd_priceMLC productUpdateData,
             p_imageUrl = (if productImageUrl \<noteq> None then productImageUrl else existingImageUrl)\<rparr>
      in logSystemMessage LogSystem (logPrefix botType)
           (s1\<lparr>productGrid := updateProductCard (cmd_id productUpdateData) finalProductData (productGrid s1),
               localStorage := saveProductData (cmd_id productUpdateData) finalProductData (localStorage s1)\<rparr>))"

text \<open>The chat branch: a photo with its caption, or a text, is appended as received.\<close>

definition handleChatMessage :: "config \<Rightarrow> file_api \<Rightarrow> bot_type \<Rightarrow> message \<Rightarrow> page_state \<Rightarrow> page_state" where
  "handleChatMessage cfg getFile botType msg s =
     (let photoArray = photo_or_empty (m_photo msg);
          (messageText, imageUrl, shouldSave, s1) =
            (if photoArray \<noteq> []
             then (case file_path_of getFile False photoArray of
                     Some file_path \<Rightarrow>
                       (m_caption msg, Some (PRIMARY_FILE_BASE_URL cfg @ ''/'' @ file_path), True, s)
                   | None \<Rightarrow>
                       (m_caption msg, None, truthy_str (m_caption msg),
                        logSystemMessage LogWarn (logPrefix botType) s))
             else if truthy_str (m_text msg) then (m_text msg, None, True, s)
             else (None, None, False, s))
      in if shouldSave
         then (let (h, st) = addMessageToChat messageText ''received'' (senderName msg) (m_date msg)
                               imageUrl True (chatHistory s1) (LOCAL_STORAGE_KEY cfg) (localStorage s1)
               in s1\<lparr>chatHistory := h, localStorage := st\<rparr>)
         else s1)"

text \<open>The roulette branch, reached when the text starts with \<open>*RULETA*\<close>.\<close>

definition handleRoulette :: "bot_type \<Rightarrow> string \<Rightarrow> page_state \<Rightarrow> page_state" where
  "handleRoulette botType text s =
     (case trim_nonempty (split (CHR ''*'') text) of
        [p0, attempts, hour, code] \<Rightarrow>
          (if toUpperCase p0 = ''RULETA'' \<and> all_digits attempts \<and> all_digits hour \<and> code \<noteq> []
           then (let winHour = parseInt hour
                 in if winHour \<le> 23
                    then logSystemMessage LogSystem (logPrefix botType)
                           (showRouletteButton attempts winHour code s)
                    else logSystemMessage LogWarn (logPrefix botType) s)
           else logSystemMessage LogWarn (logPrefix botType) s)
      | _ \<Rightarrow> logSystemMessage LogWarn (logPrefix botType) s)"

text \<open>The delete branch, reached when the text starts with \<open>*ELIMINAR.PRODUCTO*\<close>.\<close>

definition handleDelete :: "bot_type \<Rightarrow> string \<Rightarrow> page_state \<Rightarrow> page_state" where
  "handleDelete botType text s =
     (case trim_nonempty (split (CHR ''*'') text) of
        [p0, productIdToDelete] \<Rightarrow>
          (if toUpperCase p0 = ''ELIMINAR.PRODUCTO'' \<and> all_digits productIdToDelete
           then (let (g, st) = deleteProduct productIdToDelete (productGrid s, localStorage s)
                 in logSystemMessage LogSystem (logPrefix botType)
                      (s\<lparr>productGrid := g, localStorage := st\<rparr>))
           else logSystemMessage LogWarn (logPrefix botType) s)
      | _ \<Rightarrow> logSystemMessage LogWarn (logPrefix botType) s)"

text \<open>\<open>caption || text\<close>: the caption when it is a non-empty string, else the text.\<close>

definition command_source :: "message \<Rightarrow> string" where
  "command_source msg =
     (if truthy_str (m_caption msg) then str_or_empty (m_caption msg) else str_or_empty (m_text msg))"

text \<open>
  The body of the loop of \<open>processUpdates\<close> for a message that passed the chat filter:
  the commands in the order of the source, each ending the iteration, then the product
  command, then the chat message.
\<close>

definition processMessage :: "config \<Rightarrow> file_api \<Rightarrow> bot_type \<Rightarrow> message \<Rightarrow> page_state \<Rightarrow> page_state" where
  "processMessage cfg getFile botType msg s =
     (let text = str_or_empty (m_text msg);
          commandTextSource = command_source msg
      in if text = ''*ELIMINAR.M*''
         then (let (h, st) = clearChat (LOCAL_STORAGE_KEY cfg) (localStorage s)
               in logSystemMessage LogSystem (logPrefix botType)
                    (logSystemMessage LogSystem ''Sistema'' (s\<lparr>chatHistory := h, localStorage := st\<rparr>)))
         else if startsWith text ''*PANEL SUPERIOR*''
         then (let tickerText = trim (drop (length ''*PANEL SUPERIOR*'') text)
               in logSystemMessage LogSystem (logPrefix botType)
                    (updateTickerDisplay tickerText
                       (s\<lparr>localStorage := (localStorage s)\<lparr>st_ticker := Some tickerText\<rparr>\<rparr>)))
         else if startsWith text ''*NOTIFICACION*''
         then (let notificationText = trim (drop (length ''*NOTIFICACION*'') text)
               in if notificationText \<noteq> []
                  then logSystemMessage LogSystem (logPrefix botType) (showNotification notificationText s)
                  else logSystemMessage LogWarn (logPrefix botType) s)
         else if startsWith text ''*RULETA*'' then handleRoulette botType text s
         else if startsWith text ''*TARJETA*''
         then (let potentialCardNumber = trim (drop (length ''*TARJETA*'') text)
               in if potentialCardNumber \<noteq> [] \<and> card_number_format potentialCardNumber
                  then logSystemMessage LogSystem (logPrefix botType)
                         (s\<lparr>localStorage := (localStorage s)\<lparr>st_mlcCard := Some potentialCardNumber\<rparr>\<rparr>)
                  else logSystemMessage LogWarn (logPrefix botType) s)
         else if text = ''*TARJETA.E*''
         then logSystemMessage LogSystem (logPrefix botType)
                (s\<lparr>localStorage := (localStorage s)\<lparr>st_mlcCard := None\<rparr>\<rparr>)
         else if startsWith text ''*ELIMINAR.PRODUCTO*'' then handleDelete botType text s
         else (case (if commandTextSource \<noteq> [] then parseProductCommand commandTextSource else None) of
                 Some productUpdateData \<Rightarrow> handleProductUpdate cfg getFile botType msg productUpdateData s
               | None \<Rightarrow>
                   (if botType = Primary \<and> m_chat_id msg = MAIN_CHAT_ID cfg
                    then handleChatMessage cfg getFile botType msg s
                    else s)))"

text \<open>
  One iteration of the loop: the cursor of the channel is set first, then a message from
  a chat other than the one bound to the channel ends the iteration.
\<close>

definition processUpdate :: "config \<Rightarrow> file_api \<Rightarrow> bot_type \<Rightarrow> app_state \<Rightarrow> update \<Rightarrow> app_state" where
  "processUpdate cfg getFile botType s u =
     (let s1 = (if botType = Primary then s\<lparr>lastPrimaryUpdateId := update_id u\<rparr>
                else s\<lparr>lastAuxiliaryUpdateId := update_id u\<rparr>)
      in case u_message u of
           None \<Rightarrow> s1
         | Some msg \<Rightarrow>
             (if botType = Primary \<and> m_chat_id msg \<noteq> MAIN_CHAT_ID cfg then s1
              else if botType = Auxiliary \<and> Some (m_chat_id msg) \<noteq> AUX_CHAT_ID cfg then s1
              else s1\<lparr>page := processMessage cfg getFile botType msg (page s1)\<rparr>))"

definition processUpdates :: "config \<Rightarrow> file_api \<Rightarrow> bot_type \<Rightarrow> update list \<Rightarrow> app_state \<Rightarrow> app_state" where
  "processUpdates cfg getFile botType updates s = foldl (processUpdate cfg getFile botType) s updates"

section \<open>The poll loops\<close>

text \<open>
  What one poll meets outside the program: the answer of \<open>getUpdates\<close> to the offset
  sent (with or without the auxiliary token), the answer of \<open>getMe\<close> and the file
  paths. The fetch functions of this section are a fetch from its call to its end with
  nothing running in between; the section on the awaits takes a fetch apart. The
  handlers of the model do not throw, so the \<open>catch\<close> block is entered only when the
  request throws.
\<close>

datatype fetch_result = FetchThrows | FetchNull | FetchUpdates "update list"

record poll_env =
  env_getUpdates :: "bool \<Rightarrow> int \<Rightarrow> fetch_result"
  env_getMe :: "bool \<Rightarrow> string option"
  env_getFile :: file_api

text \<open>Truthiness of a handle: a timer number is truthy unless it is zero.\<close>

definition truthy_handle :: "handle \<Rightarrow> bool" where
  "truthy_handle h = (case h of HNull \<Rightarrow> False | HTrue \<Rightarrow> True | HTimer n \<Rightarrow> n \<noteq> 0)"

definition clearTimeout :: "nat \<Rightarrow> app_state \<Rightarrow> app_state" where
  "clearTimeout h s = s\<lparr>timers := filter (\<lambda>t. fst t \<noteq> h) (timers s)\<rparr>"

text \<open>\<open>setTimeout\<close> returns a fresh positive number.\<close>

definition setTimeout :: "bot_type \<Rightarrow> nat \<Rightarrow> app_state \<Rightarrow> nat \<times> app_state" where
  "setTimeout callback delay s =
     (let h = timer_count s + 1
      in (h, s\<lparr>timer_count := h, timers := timers s @ [(h, callback, delay)]\<rparr>))"

definition scheduleNextPrimaryPoll :: "nat \<Rightarrow> app_state \<Rightarrow> app_state" where
  "scheduleNextPrimaryPoll delay s =
     (if truthy_handle (primaryUpdateInterval s)
      then (let s1 = (case primaryUpdateInterval s of HTimer t \<Rightarrow> clearTimeout t s | _ \<Rightarrow> s);
                (h, s2) = setTimeout Primary delay s1
            in s2\<lparr>primaryUpdateInterval := HTimer h\<rparr>)
      else s)"

definition scheduleNextAuxiliaryPoll :: "nat \<Rightarrow> app_state \<Rightarrow> app_state" where
  "scheduleNextAuxiliaryPoll delay s =
     (if truthy_handle (auxiliaryUpdateInterval s)
      then (let s1 = (case auxiliaryUpdateInterval s of HTimer t \<Rightarrow> clearTimeout t s | _ \<Rightarrow> s);
                (h, s2) = setTimeout Auxiliary delay s1
            in s2\<lparr>auxiliaryUpdateInterval := HTimer h\<rparr>)
      else s)"

definition log_in_state :: "log_level \<Rightarrow> string \<Rightarrow> app_state \<Rightarrow> app_state" where
  "log_in_state type sender s = s\<lparr>page := logSystemMessage type sender (page s)\<rparr>"

definition getPrimaryBotMe :: "poll_env \<Rightarrow> app_state \<Rightarrow> app_state" where
  "getPrimaryBotMe env s =
     (case or_null (env_getMe env False) of
        Some result \<Rightarrow> s\<lparr>primaryBotInfo := Some result, disconnected := False\<rparr>
      | None \<Rightarrow> log_in_state LogError ''Sistema (Primario)'' (s\<lparr>disconnected := True\<rparr>))"

definition getAuxiliaryBotMe :: "config \<Rightarrow> poll_env \<Rightarrow> app_state \<Rightarrow> app_state" where
  "getAuxiliaryBotMe cfg env s =
     (if \<not> truthy_str (EFFECTIVE_AUX_BOT_TOKEN cfg) then s
      else (case or_null (env_getMe env True) of
              Some result \<Rightarrow>
                log_in_state LogInfo ''Sistema (Auxiliar)'' (s\<lparr>auxiliaryBotInfo := Some result\<rparr>)
            | None \<Rightarrow> log_in_state LogError ''Sistema (Auxiliar)'' s))"

text \<open>
  \<open>fetchPrimaryUpdates\<close>. The \<open>finally\<close> block runs on every way out of the \<open>try\<close>
  block, also after the \<open>return\<close> of the null branch and of the \<open>catch\<close> block.
\<close>

definition primary_finally :: "app_state \<Rightarrow> app_state" where
  "primary_finally s =
     (if truthy_handle (primaryUpdateInterval s) then scheduleNextPrimaryPoll 100 s else s)"

definition fetchPrimaryUpdates :: "config \<Rightarrow> poll_env \<Rightarrow> app_state \<Rightarrow> app_state" where
  "fetchPrimaryUpdates cfg env s =
     (if \<not> truthy_handle (primaryUpdateInterval s) then s
      else (let offset = lastPrimaryUpdateId s + 1;
                s0 = s\<lparr>requests := requests s @ [(Primary, offset)]\<rparr>
            in (case env_getUpdates env False offset of
                  FetchThrows \<Rightarrow>
                    primary_finally
                      (scheduleNextPrimaryPoll 15000 (log_in_state LogError ''Sistema (Primario)'' s0))
                | FetchNull \<Rightarrow> primary_finally (scheduleNextPrimaryPoll 15000 s0)
                | FetchUpdates updates \<Rightarrow>
                    (let s1 = (if updates \<noteq> [] \<and> disconnected s0
                               then (if primaryBotInfo s0 \<noteq> None then s0\<lparr>disconnected := False\<rparr>
                                     else getPrimaryBotMe env s0)
                               else s0)
                     in primary_finally (processUpdates cfg (env_getFile env) Primary updates s1)))))"

definition auxiliary_finally :: "app_state \<Rightarrow> app_state" where
  "auxiliary_finally s =
     (if truthy_handle (auxiliaryUpdateInterval s) then scheduleNextAuxiliaryPoll 100 s else s)"

definition fetchAuxiliaryUpdates :: "config \<Rightarrow> poll_env \<Rightarrow> app_state \<Rightarrow> app_state" where
  "fetchAuxiliaryUpdates cfg env s =
     (if \<not> truthy_handle (auxiliaryUpdateInterval s) \<or> \<not> truthy_str (EFFECTIVE_AUX_BOT_TOKEN cfg)
         \<or> \<not> truthy_str (AUX_CHAT_ID cfg) then s
      else (let offset = lastAuxiliaryUpdateId s + 1;
                s0 = s\<lparr>requests := requests s @ [(Auxiliary, offset)]\<rparr>
            in (case env_getUpdates env True offset of
                  FetchThrows \<Rightarrow>
                    auxiliary_finally
                      (scheduleNextAuxiliaryPoll 15000 (log_in_state LogError ''Sistema (Auxiliar)'' s0))
                | FetchNull \<Rightarrow> auxiliary_finally (scheduleNextAuxiliaryPoll 15000 s0)
                | FetchUpdates updates \<Rightarrow>
                    (let s1 = (if updates \<noteq> [] \<and> auxiliaryBotInfo s0 = None
                               then getAuxiliaryBotMe cfg env s0 else s0)
                     in auxiliary_finally (processUpdates cfg (env_getFile env) Auxiliary updates s1)))))"

section \<open>Notions used to state the properties\<close>

subsection \<open>Prices\<close>

text \<open>
  \<open>last_price cur ms\<close> is the reading "the last token of a currency wins": the value of
  the last match that names the currency, if there is one.
\<close>

definition last_price :: "currency \<Rightarrow> (string \<times> currency) list \<Rightarrow> rat option" where
  "last_price cur ms =
     (case rev (filter (\<lambda>m. snd m = cur) ms) of
        [] \<Rightarrow> None
      | m # _ \<Rightarrow> parseFloat (replace_comma (fst m)))"

subsection \<open>Chat entries\<close>

text \<open>
  \<open>stored_entry\<close> is the entry an append stores for its arguments; \<open>savable\<close> is the guard
  of \<open>addMessageToChat\<close>.
\<close>

definition stored_entry :: "string option \<Rightarrow> string \<Rightarrow> string \<Rightarrow> int \<Rightarrow> string option \<Rightarrow> chat_entry" where
  "stored_entry text type sender timestamp imageUrl =
     \<lparr>e_text = or_null text, e_type = type, e_sender = sender,
      e_timestamp = timestamp, e_imageUrl = or_null imageUrl\<rparr>"

definition savable :: "string \<Rightarrow> bool \<Rightarrow> string \<Rightarrow> bool" where
  "savable type save storageKey = (save \<and> type \<noteq> ''system'' \<and> type \<noteq> ''error'' \<and> storageKey \<noteq> [])"

subsection \<open>Product ids\<close>

text \<open>
  The ids of the cards in grid order, and what it means for them to be \<open>1, ..., N\<close>:
  the card at index \<open>j\<close> has the id \<open>j + 1\<close>.
\<close>

definition grid_ids :: "card list option \<Rightarrow> string list" where
  "grid_ids g = (case g of None \<Rightarrow> [] | Some cards \<Rightarrow> map card_id cards)"

definition dense_ids :: "string list \<Rightarrow> bool" where
  "dense_ids ids = (ids = map (\<lambda>j. string_of_nat (j + 1)) [0 ..< length ids])"

subsection \<open>Channels and cursors\<close>

text \<open>
  \<open>cursor\<close> reads the last update id of a channel and \<open>advance_cursor\<close> sets it.
  \<open>foreign_chat\<close> holds of a message whose chat is not the chat bound to the channel that
  fetched it. \<open>erase_cursors\<close> forgets both cursors, so that two states can be compared
  on everything else; \<open>loop_vars\<close> and \<open>trace_vars\<close> collect the other variables of the
  loops.
\<close>

definition cursor :: "bot_type \<Rightarrow> app_state \<Rightarrow> int" where
  "cursor botType s = (case botType of Primary \<Rightarrow> lastPrimaryUpdateId s | Auxiliary \<Rightarrow> lastAuxiliaryUpdateId s)"

definition advance_cursor :: "bot_type \<Rightarrow> int \<Rightarrow> app_state \<Rightarrow> app_state" where
  "advance_cursor botType n s =
     (case botType of
        Primary \<Rightarrow> s\<lparr>lastPrimaryUpdateId := n\<rparr>
      | Auxiliary \<Rightarrow> s\<lparr>lastAuxiliaryUpdateId := n\<rparr>)"

definition foreign_chat :: "config \<Rightarrow> bot_type \<Rightarrow> message \<Rightarrow> bool" where
  "foreign_chat cfg botType msg =
     (case botType of
        Primary \<Rightarrow> m_chat_id msg \<noteq> MAIN_CHAT_ID cfg
      | Auxiliary \<Rightarrow> Some (m_chat_id msg) \<noteq> AUX_CHAT_ID cfg)"

definition erase_cursors :: "app_state \<Rightarrow> app_state" where
  "erase_cursors s = s\<lparr>lastPrimaryUpdateId := 0, lastAuxiliaryUpdateId := 0\<rparr>"

definition loop_vars ::
  "app_state \<Rightarrow> handle \<times> handle \<times> string option \<times> string option \<times> bool \<times>
     (nat \<times> bot_type \<times> nat) list \<times> nat \<times> (bot_type \<times> int) list" where
  "loop_vars s = (primaryUpdateInterval s, auxiliaryUpdateInterval s, primaryBotInfo s,
                  auxiliaryBotInfo s, disconnected s, timers s, timer_count s, requests s)"

definition trace_vars :: "app_state \<Rightarrow> int \<times> int \<times> (bot_type \<times> int) list" where
  "trace_vars s = (lastPrimaryUpdateId s, lastAuxiliaryUpdateId s, requests s)"

text \<open>A fetch failed when the request threw or returned null.\<close>

definition fetch_failed :: "fetch_result \<Rightarrow> bool" where
  "fetch_failed r = (case r of FetchThrows \<Rightarrow> True | FetchNull \<Rightarrow> True | FetchUpdates us \<Rightarrow> False)"

subsection \<open>Command texts\<close>

text \<open>The tests of \<open>processUpdates\<close> that come before the product command.\<close>

definition earlier_command :: "string \<Rightarrow> bool" where
  "earlier_command t =
     (t = ''*ELIMINAR.M*'' \<or> startsWith t ''*PANEL SUPERIOR*'' \<or> startsWith t ''*NOTIFICACION*'' \<or>
      startsWith t ''*RULETA*'' \<or> startsWith t ''*TARJETA*'' \<or> t = ''*TARJETA.E*'' \<or>
      startsWith t ''*ELIMINAR.PRODUCTO*'')"

text \<open>No image comes with the update: no photo, or a photo whose file path does not resolve.\<close>

definition image_unresolved :: "config \<Rightarrow> file_api \<Rightarrow> bot_type \<Rightarrow> message \<Rightarrow> bool" where
  "image_unresolved cfg getFile botType msg =
     (photo_or_empty (m_photo msg) = [] \<or>
      file_path_of getFile (botType = Auxiliary \<and> truthy_str (EFFECTIVE_AUX_BOT_TOKEN cfg))
        (photo_or_empty (m_photo msg)) = None)"







section \<open>The poll loops, one await at a time\<close>

text \<open>
  \<open>fetchPrimaryUpdates\<close> and \<open>processUpdates\<close> are \<open>async\<close> functions: a call runs until
  its next \<open>await\<close> and goes on when the awaited request is answered, and other calls run
  in between. A fetch waits for \<open>getUpdates\<close>, then possibly for \<open>getMe\<close>, and inside
  \<open>processUpdates\<close> for \<open>getFile\<close> at each update that carries a photo to resolve. A fetch
  that waits is a \<open>fetch_task\<close>: its loop, whether \<open>ptrRefreshAction\<close> called it (which then
  goes on to its auxiliary part), and what it waits for, with what is left of its batch.
\<close>

datatype stage = AwaitUpdates int | AwaitBotMe "update list" | AwaitFile update "update list"

record fetch_task =
  t_bot :: bot_type
  t_refresh :: bool
  t_stage :: stage

text \<open>
  What happens: a fetch function is called by the timer of its loop or by the start of
  the loop; the page is pulled to refresh; the request a waiting fetch has sent is
  answered (the fetch is named by its position among the waiting ones, the answer is read
  from the environment given).
\<close>

datatype event = Calls bot_type | PullToRefresh | Resumes nat poll_env

text \<open>
  An iteration of \<open>processUpdates\<close> reaches \<open>await getFile\<close> when the message passes the
  chat filter, its text is none of the commands tested first, it has a photo, and it is
  a product command or a chat message of the primary channel.
\<close>

definition awaits_file :: "config \<Rightarrow> bot_type \<Rightarrow> update \<Rightarrow> bool" where
  "awaits_file cfg botType u =
     (case u_message u of
        None \<Rightarrow> False
      | Some msg \<Rightarrow>
          \<not> foreign_chat cfg botType msg \<and> \<not> earlier_command (str_or_empty (m_text msg)) \<and>
          photo_or_empty (m_photo msg) \<noteq> [] \<and>
          ((if command_source msg \<noteq> [] then parseProductCommand (command_source msg) else None) \<noteq> None
           \<or> (botType = Primary \<and> m_chat_id msg = MAIN_CHAT_ID cfg)))"

text \<open>The guard at the head of the fetch functions.\<close>

definition fetch_guard :: "config \<Rightarrow> bot_type \<Rightarrow> app_state \<Rightarrow> bool" where
  "fetch_guard cfg botType s =
     (case botType of
        Primary \<Rightarrow> truthy_handle (primaryUpdateInterval s)
      | Auxiliary \<Rightarrow> truthy_handle (auxiliaryUpdateInterval s) \<and> truthy_str (EFFECTIVE_AUX_BOT_TOKEN cfg)
                       \<and> truthy_str (AUX_CHAT_ID cfg))"

text \<open>
  A call of a fetch function up to its first \<open>await\<close>: past the guard, the request is sent
  with the offset read at this moment.
\<close>

definition start_fetch ::
  "config \<Rightarrow> bot_type \<Rightarrow> bool \<Rightarrow> app_state \<times> fetch_task list \<Rightarrow> app_state \<times> fetch_task list" where
  "start_fetch cfg botType refresh sys =
     (let (s, ts) = sys
      in if \<not> fetch_guard cfg botType s then sys
         else (let offset = cursor botType s + 1
               in (s\<lparr>requests := requests s @ [(botType, offset)]\<rparr>,
                   ts @ [\<lparr>t_bot = botType, t_refresh = refresh, t_stage = AwaitUpdates offset\<rparr>])))"

text \<open>
  \<open>ptrRefreshAction\<close>: with the primary bot known, the timer of the primary loop is
  cleared, the handle set to \<open>true\<close> and \<open>fetchPrimaryUpdates\<close> called and awaited; then
  the same for the auxiliary loop (\<open>refresh_auxiliary\<close>). Nothing asks whether a fetch of
  the loop is still waiting.
\<close>

definition refresh_auxiliary :: "config \<Rightarrow> app_state \<times> fetch_task list \<Rightarrow> app_state \<times> fetch_task list" where
  "refresh_auxiliary cfg sys =
     (let (s, ts) = sys
      in if auxiliaryBotInfo s \<noteq> None \<and> truthy_str (EFFECTIVE_AUX_BOT_TOKEN cfg) \<and> truthy_str (AUX_CHAT_ID cfg)
         then (let s1 = (if truthy_handle (auxiliaryUpdateInterval s)
                         then (case auxiliaryUpdateInterval s of HTimer t \<Rightarrow> clearTimeout t s | _ \<Rightarrow> s)
                         else s)
               in start_fetch cfg Auxiliary True (s1\<lparr>auxiliaryUpdateInterval := HTrue\<rparr>, ts))
         else sys)"

definition ptrRefreshAction :: "config \<Rightarrow> app_state \<times> fetch_task list \<Rightarrow> app_state \<times> fetch_task list" where
  "ptrRefreshAction cfg sys =
     (let (s, ts) = sys
      in if primaryBotInfo s \<noteq> None
         then (let s1 = (if truthy_handle (primaryUpdateInterval s)
                         then (case primaryUpdateInterval s of HTimer t \<Rightarrow> clearTimeout t s | _ \<Rightarrow> s)
                         else s)
               in start_fetch cfg Primary True (s1\<lparr>primaryUpdateInterval := HTrue\<rparr>, ts))
         else refresh_auxiliary cfg sys)"

text \<open>
  The end of a fetch: the \<open>finally\<close> block, and for a fetch of the primary loop called by
  \<open>ptrRefreshAction\<close> the auxiliary part of that function. The retry of the failure
  branches is \<open>schedule_retry\<close>.
\<close>

definition fetch_finally :: "bot_type \<Rightarrow> app_state \<Rightarrow> app_state" where
  "fetch_finally botType s = (case botType of Primary \<Rightarrow> primary_finally s | Auxiliary \<Rightarrow> auxiliary_finally s)"

definition schedule_retry :: "bot_type \<Rightarrow> app_state \<Rightarrow> app_state" where
  "schedule_retry botType s =
     (case botType of
        Primary \<Rightarrow> scheduleNextPrimaryPoll 15000 s
      | Auxiliary \<Rightarrow> scheduleNextAuxiliaryPoll 15000 s)"

definition finish_fetch ::
  "config \<Rightarrow> fetch_task \<Rightarrow> app_state \<times> fetch_task list \<Rightarrow> app_state \<times> fetch_task list" where
  "finish_fetch cfg task sys =
     (let (s, ts) = sys;
          ended = (fetch_finally (t_bot task) s, ts)
      in if t_refresh task \<and> t_bot task = Primary then refresh_auxiliary cfg ended else ended)"

text \<open>
  The loop of \<open>processUpdates\<close> from the head of an iteration. An update that reaches
  \<open>await getFile\<close> has set the cursor and nothing else when the fetch starts to wait; the
  other updates are processed at once (they read no file path), and after the last one
  the fetch ends.
\<close>

fun continue_batch ::
  "config \<Rightarrow> fetch_task \<Rightarrow> update list \<Rightarrow> app_state \<times> fetch_task list \<Rightarrow> app_state \<times> fetch_task list" where
  "continue_batch cfg task [] sys = finish_fetch cfg task sys"
| "continue_batch cfg task (u # rest) sys =
     (if awaits_file cfg (t_bot task) u
      then (advance_cursor (t_bot task) (update_id u) (fst sys),
            snd sys @ [task\<lparr>t_stage := AwaitFile u rest\<rparr>])
      else continue_batch cfg task rest
             (processUpdate cfg (\<lambda>useAux file_id. None) (t_bot task) (fst sys) u, snd sys))"

text \<open>
  A waiting fetch goes on with the answer to its request: after \<open>getUpdates\<close> the failure
  branches or the batch (with \<open>getMe\<close> first where the source awaits it); after \<open>getMe\<close>
  the batch; after \<open>getFile\<close> the rest of the iteration, which reads the page as it is
  now, and then the rest of the batch.
\<close>

definition resume ::
  "config \<Rightarrow> poll_env \<Rightarrow> fetch_task \<Rightarrow> app_state \<times> fetch_task list \<Rightarrow> app_state \<times> fetch_task list" where
  "resume cfg env task sys =
     (let (s, ts) = sys; botType = t_bot task
      in case t_stage task of
           AwaitUpdates offset \<Rightarrow>
             (case env_getUpdates env (botType = Auxiliary) offset of
                FetchThrows \<Rightarrow>
                  finish_fetch cfg task
                    (schedule_retry botType (log_in_state LogError (logPrefix botType) s), ts)
              | FetchNull \<Rightarrow> finish_fetch cfg task (schedule_retry botType s, ts)
              | FetchUpdates updates \<Rightarrow>
                  (case botType of
                     Primary \<Rightarrow>
                       (if updates \<noteq> [] \<and> disconnected s
                        then (if primaryBotInfo s \<noteq> None
                              then continue_batch cfg task updates (s\<lparr>disconnected := False\<rparr>, ts)
                              else (s, ts @ [task\<lparr>t_stage := AwaitBotMe updates\<rparr>]))
                        else continue_batch cfg task updates (s, ts))
                   | Auxiliary \<Rightarrow>
                       (if updates \<noteq> [] \<and> auxiliaryBotInfo s = None
                        then (s, ts @ [task\<lparr>t_stage := AwaitBotMe updates\<rparr>])
                        else continue_batch cfg task updates (s, ts))))
         | AwaitBotMe updates \<Rightarrow>
             continue_batch cfg task updates
               ((case botType of
                   Primary \<Rightarrow> getPrimaryBotMe env s
                 | Auxiliary \<Rightarrow> getAuxiliaryBotMe cfg env s), ts)
         | AwaitFile u rest \<Rightarrow>
             continue_batch cfg task rest
               ((case u_message u of
                   None \<Rightarrow> s
                 | Some msg \<Rightarrow> s\<lparr>page := processMessage cfg (env_getFile env) botType msg (page s)\<rparr>), ts))"

text \<open>
  One event, and a run of events. When a fetch function is called and the handle of its
  loop is a timer, that timer has expired and is no longer pending. A fetch that goes on
  leaves the list of the waiting ones and, when it waits again, joins it at the end.
\<close>

definition expire :: "handle \<Rightarrow> app_state \<Rightarrow> app_state" where
  "expire h s = (case h of HTimer t \<Rightarrow> clearTimeout t s | _ \<Rightarrow> s)"

definition step :: "config \<Rightarrow> app_state \<times> fetch_task list \<Rightarrow> event \<Rightarrow> app_state \<times> fetch_task list" where
  "step cfg sys ev =
     (let (s, ts) = sys
      in case ev of
           Calls botType \<Rightarrow>
             start_fetch cfg botType False
               ((case botType of
                   Primary \<Rightarrow> expire (primaryUpdateInterval s) s
                 | Auxiliary \<Rightarrow> expire (auxiliaryUpdateInterval s) s), ts)
         | PullToRefresh \<Rightarrow> ptrRefreshAction cfg sys
         | Resumes k env \<Rightarrow>
             (if k < length ts then resume cfg env (ts ! k) (s, take k ts @ drop (Suc k) ts) else sys))"

definition run :: "config \<Rightarrow> event list \<Rightarrow> app_state \<times> fetch_task list \<Rightarrow> app_state \<times> fetch_task list" where
  "run cfg evs sys = foldl (step cfg) sys evs"

subsection \<open>Runs of fetches\<close>










section \<open>Inputs used in the examples\<close>

text \<open>
  A fresh page with an empty grid, a configuration with both channels, and a state in
  which both loops have been started (\<open>startPrimaryPolling\<close> sets the handle to \<open>true\<close>).
  \<open>env_of r\<close> answers every \<open>getUpdates\<close> with \<open>r\<close> and fails every other request;
  \<open>feed_env batch\<close> holds a batch and returns its updates at or above the offset.
\<close>

definition empty_storage :: storage where
  "empty_storage = \<lparr>st_ticker = None, st_mlcCard = None, st_products = Map.empty, st_chat = Map.empty\<rparr>"

definition init_page :: page_state where
  "init_page =
     \<lparr>chatHistory = [], localStorage = empty_storage, productGrid = Some [],
      tickerDisplay = None, notifications = [], rouletteButton = None, systemLog = []\<rparr>"

definition init_state :: app_state where
  "init_state =
     \<lparr>lastPrimaryUpdateId = 0, lastAuxiliaryUpdateId = 0,
      primaryUpdateInterval = HNull, auxiliaryUpdateInterval = HNull,
      primaryBotInfo = None, auxiliaryBotInfo = None, disconnected = False,
      timers = [], timer_count = 0, requests = [], page = init_page\<rparr>"

definition example_config :: config where
  "example_config = \<lparr>MAIN_CHAT_ID = ''100'', AUX_CHAT_ID = Some ''200'',
                      EFFECTIVE_AUX_BOT_TOKEN = Some ''aux'', PRIMARY_FILE_BASE_URL = ''https://files''\<rparr>"

definition env_of :: "fetch_result \<Rightarrow> poll_env" where
  "env_of r = \<lparr>env_getUpdates = (\<lambda>useAux offset. r), env_getMe = (\<lambda>useAux. None),
               env_getFile = (\<lambda>useAux file_id. None)\<rparr>"

definition polling_state :: app_state where
  "polling_state = init_state\<lparr>primaryUpdateInterval := HTrue, auxiliaryUpdateInterval := HTrue,
                              primaryBotInfo := Some ''bot'', auxiliaryBotInfo := Some ''auxbot''\<rparr>"

definition no_files :: file_api where
  "no_files = (\<lambda>useAux file_id. None)"



text \<open>Messages: a text from a chat, and a clear command from a chat bound to no channel.\<close>

definition text_message :: "string \<Rightarrow> string \<Rightarrow> message" where
  "text_message chat t = \<lparr>m_first_name = Some ''Ana'', m_username = None, m_chat_id = chat,
     m_date = 1700000000, m_text = Some t, m_caption = None, m_photo = None,
     m_participant = False\<rparr>"


definition intruder_message :: message where
  "intruder_message = \<lparr>m_first_name = Some ''Eve'', m_username = None, m_chat_id = ''999'',
     m_date = 1700000000, m_text = Some ''*ELIMINAR.M*'', m_caption = None, m_photo = None,
     m_participant = False\<rparr>"

text \<open>Catalogs: three products with ids 1, 2, 3; one product with id 42.\<close>

definition example_product :: "string \<Rightarrow> product_data" where
  "example_product n = \<lparr>p_name = n, p_description = ''dulce'', p_priceCUP = Some 5,
                         p_priceMLC = None, p_imageUrl = None\<rparr>"

definition example_card :: "string \<Rightarrow> string \<Rightarrow> card" where
  "example_card i n = createProductCardElement i (example_product n)"

definition catalog_123 :: "card list option \<times> storage" where
  "catalog_123 =
     (Some [example_card ''1'' ''Mani'', example_card ''2'' ''Coco'', example_card ''3'' ''Mango''],
      empty_storage\<lparr>st_products := [''1'' \<mapsto> example_product ''Mani'', ''2'' \<mapsto> example_product ''Coco'',
                                     ''3'' \<mapsto> example_product ''Mango'']\<rparr>)"

definition catalog_42 :: "card list option \<times> storage" where
  "catalog_42 =
     (Some [example_card ''42'' ''Mani''],
      empty_storage\<lparr>st_products := [''42'' \<mapsto> example_product ''Mani'']\<rparr>)"

definition page_with_42 :: page_state where
  "page_with_42 = init_page\<lparr>localStorage := empty_storage\<lparr>st_products :=
     [''42'' \<mapsto> \<lparr>p_name = ''Viejo'', p_description = ''Antes'', p_priceCUP = Some 1,
                  p_priceMLC = None, p_imageUrl = Some ''https://img/42.jpg''\<rparr>]\<rparr>\<rparr>"





section \<open>The price segment of the product command\<close>

lemma replace_comma_digit_head:
  "s \<noteq> [] \<Longrightarrow> is_digit (hd s) \<Longrightarrow> replace_comma s \<noteq> [] \<and> hd (replace_comma s) = hd s"
  by (cases s) (auto simp: is_digit_def)

lemma parseFloat_digit_head:
  assumes "s \<noteq> []" "is_digit (hd s)"
  shows "parseFloat s \<noteq> None"
proof -
  from assms have "takeWhile is_digit s \<noteq> []"
    by (cases s) auto
  then show ?thesis
    by (auto simp: parseFloat_def Let_def split: list.splits)
qed

lemma priceRegex_at_head:
  assumes "priceRegex_at s = Some ((str, cur), rest)"
  shows "str \<noteq> [] \<and> is_digit (hd str)"
proof -
  from assms have d1: "takeWhile is_digit s \<noteq> []"
    by (auto simp: priceRegex_at_def Let_def split: if_splits)
  then have "is_digit (hd (takeWhile is_digit s))"
    by (metis hd_in_set set_takeWhileD)
  moreover from assms d1 obtain t where "str = takeWhile is_digit s @ t"
    by (auto simp: priceRegex_at_def Let_def split: option.splits)
  ultimately show ?thesis using d1 by simp
qed

lemma priceRegex_exec_parse:
  "(str, cur) \<in> set (priceRegex_exec s) \<Longrightarrow> parseFloat (replace_comma str) \<noteq> None"
proof (induction s rule: priceRegex_exec.induct)
  case 1
  then show ?case by simp
next
  case (2 c cs)
  show ?case
  proof (cases "priceRegex_at (c # cs)")
    case None
    with 2 show ?thesis by simp
  next
    case (Some a)
    obtain m rest where a: "a = (m, rest)" by (cases a)
    obtain str' cur' where m: "m = (str', cur')" by (cases m)
    from "2.prems" Some a have "(str, cur) = m \<or> (str, cur) \<in> set (priceRegex_exec rest)"
      by simp
    then show ?thesis
    proof
      assume "(str, cur) = m"
      with Some a m have "priceRegex_at (c # cs) = Some ((str, cur), rest)" by simp
      then have "str \<noteq> [] \<and> is_digit (hd str)" by (rule priceRegex_at_head)
      then show ?thesis
        using replace_comma_digit_head parseFloat_digit_head by metis
    next
      assume "(str, cur) \<in> set (priceRegex_exec rest)"
      with "2.IH"(2) Some a show ?thesis by simp
    qed
  qed
qed

lemma price_loop_last:
  assumes "\<forall>(str, cur) \<in> set ms. parseFloat (replace_comma str) \<noteq> None"
  shows "foldl price_step (cup, mlc) ms =
           ((case last_price CUP ms of None \<Rightarrow> cup | Some v \<Rightarrow> Some v),
            (case last_price MLC ms of None \<Rightarrow> mlc | Some v \<Rightarrow> Some v))"
  using assms
proof (induction ms rule: rev_induct)
  case Nil
  then show ?case by (simp add: last_price_def)
next
  case (snoc m ms)
  obtain str cur where m: "m = (str, cur)" by (cases m)
  from snoc.prems m obtain v where v: "parseFloat (replace_comma str) = Some v"
    by auto
  from snoc have IH: "foldl price_step (cup, mlc) ms =
           ((case last_price CUP ms of None \<Rightarrow> cup | Some v \<Rightarrow> Some v),
            (case last_price MLC ms of None \<Rightarrow> mlc | Some v \<Rightarrow> Some v))"
    by simp
  show ?case
    by (cases cur) (simp_all add: IH m v last_price_def)
qed

lemma parse_example:
  "parseProductCommand ''*DULCES*42*Caramelo*Rico*10,50 CUP 2 MLC*'' =
     Some \<lparr>cmd_id = ''42'', cmd_name = ''Caramelo'', cmd_description = ''Rico'',
           cmd_priceCUP = Some (21 / 2), cmd_priceMLC = Some 2\<rparr>"
  by code_simp

lemma parse_last_wins:
  assumes parts: "trimmedParts cmd = p0 # pid # pname # pdesc # priceString # others"
    and ok: "parseProductCommand cmd = Some pd"
  shows "cmd_priceCUP pd = last_price CUP (priceRegex_exec priceString) \<and>
         cmd_priceMLC pd = last_price MLC (priceRegex_exec priceString)"
proof -
  have "\<forall>(str, cur) \<in> set (priceRegex_exec priceString). parseFloat (replace_comma str) \<noteq> None"
    using priceRegex_exec_parse by auto
  then have loop: "foldl price_step (None, None) (priceRegex_exec priceString) =
      (last_price CUP (priceRegex_exec priceString), last_price MLC (priceRegex_exec priceString))"
    by (simp add: price_loop_last split: option.splits)
  from ok parts show ?thesis
    by (auto simp: parseProductCommand_def loop split: if_splits)
qed

lemma parse_no_price:
  assumes "trimmedParts cmd = p0 # pid # pname # pdesc # priceString # others"
    and "priceRegex_exec priceString = []"
  shows "parseProductCommand cmd = None"
  using assms by (simp add: parseProductCommand_def)

text \<open>
  Claim C5. The text \<open>*DULCES*42*Caramelo*Rico*10,50 CUP 2 MLC*\<close> parses to the product
  command with id 42, name Caramelo, description Rico, CUP price 10.50 and MLC price 2.
  For any command whose fifth part is the price segment, each price of an accepted
  command is the value of the last token of its currency, and a price segment without
  any currency-tagged token makes the parser return no command.
\<close>

theorem parseProductCommand_prices:
  "parseProductCommand ''*DULCES*42*Caramelo*Rico*10,50 CUP 2 MLC*'' =
     Some \<lparr>cmd_id = ''42'', cmd_name = ''Caramelo'', cmd_description = ''Rico'',
           cmd_priceCUP = Some (21 / 2), cmd_priceMLC = Some 2\<rparr>
   \<and> (trimmedParts cmd = p0 # pid # pname # pdesc # priceString # others \<and>
       parseProductCommand cmd = Some pd \<longrightarrow>
         cmd_priceCUP pd = last_price CUP (priceRegex_exec priceString) \<and>
         cmd_priceMLC pd = last_price MLC (priceRegex_exec priceString))
   \<and> (trimmedParts cmd = p0 # pid # pname # pdesc # priceString # others \<and>
       priceRegex_exec priceString = [] \<longrightarrow> parseProductCommand cmd = None)"
  using parse_example parse_last_wins [of cmd p0 pid pname pdesc priceString others pd]
    parse_no_price [of cmd p0 pid pname pdesc priceString others]
  by blast

theorem parseProductCommand_prices_witness:
  "parseProductCommand ''*DULCES*7*Mani*Tostado*1 CUP 2 CUP 3 mlc*'' =
     Some \<lparr>cmd_id = ''7'', cmd_name = ''Mani'', cmd_description = ''Tostado'',
           cmd_priceCUP = Some 2, cmd_priceMLC = Some 3\<rparr>
   \<and> last_price CUP (priceRegex_exec ''1 CUP 2 CUP 3 mlc'') = Some 2
   \<and> last_price MLC (priceRegex_exec ''1 CUP 2 CUP 3 mlc'') = Some 3
   \<and> priceRegex_exec ''gratis'' = []
   \<and> parseProductCommand ''*DULCES*7*Mani*Tostado*gratis*'' = None"
proof -
  let ?pd = "\<lparr>cmd_id = ''7'', cmd_name = ''Mani'', cmd_description = ''Tostado'',
              cmd_priceCUP = Some 2, cmd_priceMLC = Some 3\<rparr>"
  have parts: "trimmedParts ''*DULCES*7*Mani*Tostado*1 CUP 2 CUP 3 mlc*'' =
      ''DULCES'' # ''7'' # ''Mani'' # ''Tostado'' # ''1 CUP 2 CUP 3 mlc'' # []"
    by code_simp
  have ok: "parseProductCommand ''*DULCES*7*Mani*Tostado*1 CUP 2 CUP 3 mlc*'' = Some ?pd"
    by code_simp
  have parts': "trimmedParts ''*DULCES*7*Mani*Tostado*gratis*'' =
      ''DULCES'' # ''7'' # ''Mani'' # ''Tostado'' # ''gratis'' # []"
    by code_simp
  have none: "priceRegex_exec ''gratis'' = []"
    by code_simp
  from parts ok
    parseProductCommand_prices [of "''*DULCES*7*Mani*Tostado*1 CUP 2 CUP 3 mlc*''" "''DULCES''" "''7''"
      "''Mani''" "''Tostado''" "''1 CUP 2 CUP 3 mlc''" "[]" ?pd]
  have "cmd_priceCUP ?pd = last_price CUP (priceRegex_exec ''1 CUP 2 CUP 3 mlc'') \<and>
        cmd_priceMLC ?pd = last_price MLC (priceRegex_exec ''1 CUP 2 CUP 3 mlc'')"
    by blast
  moreover from parts' none
    parseProductCommand_prices [of "''*DULCES*7*Mani*Tostado*gratis*''" "''DULCES''" "''7''"
      "''Mani''" "''Tostado''" "''gratis''" "[]"]
  have "parseProductCommand ''*DULCES*7*Mani*Tostado*gratis*'' = None"
    by blast
  ultimately show ?thesis
    using ok none by simp
qed

section \<open>Appending to the chat history\<close>

lemma saveChatHistory_persisted:
  "st_chat (saveChatHistory key h st) key = Some (drop (length h - 200) h)"
  by (simp add: saveChatHistory_def)

lemma or_null_idem: "or_null (or_null x) = or_null x"
  by (simp add: or_null_def split: option.splits)

lemma add_duplicate:
  assumes "h \<noteq> []" "last h = stored_entry body ty sender timestamp imageUrl"
  shows "addMessageToChat body ty sender timestamp imageUrl save h key st = (h, st)"
proof -
  from assms(1) obtain xs x where h: "h = xs @ [x]"
    by (metis append_butlast_last_id)
  with assms(2) have "x = stored_entry body ty sender timestamp imageUrl" by simp
  with h show ?thesis
    by (simp add: addMessageToChat_def stored_entry_def)
qed

lemma add_fresh:
  assumes "savable ty save key"
    and "h = [] \<or> last h \<noteq> stored_entry body ty sender timestamp imageUrl"
  shows "addMessageToChat body ty sender timestamp imageUrl save h key st =
           (h @ [stored_entry body ty sender timestamp imageUrl],
            saveChatHistory key (h @ [stored_entry body ty sender timestamp imageUrl]) st)"
proof (cases h rule: rev_cases)
  case Nil
  with assms(1) show ?thesis
    by (simp add: addMessageToChat_def stored_entry_def savable_def Let_def)
next
  case (snoc xs x)
  with assms(2) have "x \<noteq> stored_entry body ty sender timestamp imageUrl" by simp
  then have "\<not> (e_timestamp x = timestamp \<and> e_sender x = sender \<and> e_type x = ty \<and>
     e_text x = or_null body \<and> e_imageUrl x = or_null imageUrl)"
    by (auto simp: stored_entry_def)
  with assms(1) snoc show ?thesis
    by (simp add: addMessageToChat_def stored_entry_def savable_def Let_def)
qed

lemma add_not_savable:
  "\<not> savable ty save key \<Longrightarrow>
     addMessageToChat body ty sender timestamp imageUrl save h key st = (h, st)"
  by (auto simp: addMessageToChat_def savable_def)

lemma add_twice:
  "addMessageToChat body ty sender timestamp imageUrl save
     (fst (addMessageToChat body ty sender timestamp imageUrl save h key st)) key
     (snd (addMessageToChat body ty sender timestamp imageUrl save h key st))
   = addMessageToChat body ty sender timestamp imageUrl save h key st"
proof (cases "savable ty save key")
  case False
  then show ?thesis by (simp add: add_not_savable)
next
  case True
  show ?thesis
  proof (cases "h = [] \<or> last h \<noteq> stored_entry body ty sender timestamp imageUrl")
    case True
    with \<open>savable ty save key\<close> show ?thesis
      by (simp add: add_fresh add_duplicate)
  next
    case False
    then show ?thesis by (simp add: add_duplicate)
  qed
qed

text \<open>
  Claim C7. Appending the same entry twice in succession gives the result of appending
  it once. An append whose entry equals the last entry of the history changes neither
  the history nor the storage, and after two appends of an entry that is savable and
  differs from the last entry, the history has grown by exactly that one entry, and the
  stored history is that history cut to its last 200 entries.
\<close>

theorem addMessageToChat_idempotent:
  "addMessageToChat body ty sender timestamp imageUrl save
     (fst (addMessageToChat body ty sender timestamp imageUrl save h key st)) key
     (snd (addMessageToChat body ty sender timestamp imageUrl save h key st))
   = addMessageToChat body ty sender timestamp imageUrl save h key st
   \<and> (h \<noteq> [] \<and> last h = stored_entry body ty sender timestamp imageUrl \<longrightarrow>
        addMessageToChat body ty sender timestamp imageUrl save h key st = (h, st))
   \<and> (savable ty save key \<and> (h = [] \<or> last h \<noteq> stored_entry body ty sender timestamp imageUrl) \<longrightarrow>
        fst (addMessageToChat body ty sender timestamp imageUrl save
              (fst (addMessageToChat body ty sender timestamp imageUrl save h key st)) key
              (snd (addMessageToChat body ty sender timestamp imageUrl save h key st)))
        = h @ [stored_entry body ty sender timestamp imageUrl]
        \<and> st_chat (snd (addMessageToChat body ty sender timestamp imageUrl save
              (fst (addMessageToChat body ty sender timestamp imageUrl save h key st)) key
              (snd (addMessageToChat body ty sender timestamp imageUrl save h key st)))) key
        = Some (drop (length h + 1 - 200) (h @ [stored_entry body ty sender timestamp imageUrl])))"
  using add_twice [of body ty sender timestamp imageUrl save h key st]
    add_duplicate [of h body ty sender timestamp imageUrl save key st]
    add_fresh [of ty save key h body sender timestamp imageUrl st]
    saveChatHistory_persisted [of key "h @ [stored_entry body ty sender timestamp imageUrl]" st]
  by auto

theorem addMessageToChat_idempotent_witness:
  "fst (addMessageToChat (Some ''hola'') ''received'' ''Ana'' 1700000000 None True
         (fst (addMessageToChat (Some ''hola'') ''received'' ''Ana'' 1700000000 None True [] ''k'' empty_storage))
         ''k''
         (snd (addMessageToChat (Some ''hola'') ''received'' ''Ana'' 1700000000 None True [] ''k'' empty_storage)))
   = [\<lparr>e_text = Some ''hola'', e_type = ''received'', e_sender = ''Ana'',
        e_timestamp = 1700000000, e_imageUrl = None\<rparr>]
   \<and> st_chat (snd (addMessageToChat (Some ''hola'') ''received'' ''Ana'' 1700000000 None True
         (fst (addMessageToChat (Some ''hola'') ''received'' ''Ana'' 1700000000 None True [] ''k'' empty_storage))
         ''k''
         (snd (addMessageToChat (Some ''hola'') ''received'' ''Ana'' 1700000000 None True [] ''k'' empty_storage))))
       ''k''
   = Some [\<lparr>e_text = Some ''hola'', e_type = ''received'', e_sender = ''Ana'',
        e_timestamp = 1700000000, e_imageUrl = None\<rparr>]
   \<and> addMessageToChat (Some ''hola'') ''received'' ''Ana'' 1700000000 None True
        [\<lparr>e_text = Some ''hola'', e_type = ''received'', e_sender = ''Ana'',
          e_timestamp = 1700000000, e_imageUrl = None\<rparr>] ''k'' empty_storage
      = ([\<lparr>e_text = Some ''hola'', e_type = ''received'', e_sender = ''Ana'',
            e_timestamp = 1700000000, e_imageUrl = None\<rparr>], empty_storage)"
proof -
  let ?e = "\<lparr>e_text = Some ''hola'', e_type = ''received'', e_sender = ''Ana'',
             e_timestamp = 1700000000, e_imageUrl = None\<rparr>"
  have e: "stored_entry (Some ''hola'') ''received'' ''Ana'' 1700000000 None = ?e"
    by (simp add: stored_entry_def or_null_def)
  have fresh: "savable ''received'' True ''k'' \<and>
      ([] = [] \<or> last [] \<noteq> stored_entry (Some ''hola'') ''received'' ''Ana'' 1700000000 None)"
    by (simp add: savable_def)
  have dup: "[?e] \<noteq> [] \<and> last [?e] = stored_entry (Some ''hola'') ''received'' ''Ana'' 1700000000 None"
    by (simp add: e)
  from fresh
    addMessageToChat_idempotent [of "Some ''hola''" "''received''" "''Ana''" 1700000000 None True "[]" "''k''" empty_storage]
  have "fst (addMessageToChat (Some ''hola'') ''received'' ''Ana'' 1700000000 None True
         (fst (addMessageToChat (Some ''hola'') ''received'' ''Ana'' 1700000000 None True [] ''k'' empty_storage))
         ''k''
         (snd (addMessageToChat (Some ''hola'') ''received'' ''Ana'' 1700000000 None True [] ''k'' empty_storage)))
       = [] @ [stored_entry (Some ''hola'') ''received'' ''Ana'' 1700000000 None]
     \<and> st_chat (snd (addMessageToChat (Some ''hola'') ''received'' ''Ana'' 1700000000 None True
         (fst (addMessageToChat (Some ''hola'') ''received'' ''Ana'' 1700000000 None True [] ''k'' empty_storage))
         ''k''
         (snd (addMessageToChat (Some ''hola'') ''received'' ''Ana'' 1700000000 None True [] ''k'' empty_storage))))
       ''k''
       = Some (drop (length ([] :: chat_entry list) + 1 - 200)
                 ([] @ [stored_entry (Some ''hola'') ''received'' ''Ana'' 1700000000 None]))"
    by blast
  moreover from dup
    addMessageToChat_idempotent [of "Some ''hola''" "''received''" "''Ana''" 1700000000 None True "[?e]" "''k''" empty_storage]
  have "addMessageToChat (Some ''hola'') ''received'' ''Ana'' 1700000000 None True [?e] ''k'' empty_storage
          = ([?e], empty_storage)"
    by blast
  ultimately show ?thesis
    by (simp add: e)
qed

lemma add_adds_own_type:
  "e \<in> set (fst (addMessageToChat body ty sender timestamp imageUrl save h key st)) \<Longrightarrow>
     e \<in> set h \<or>
     (e = stored_entry body ty sender timestamp imageUrl \<and> save \<and> ty \<noteq> ''system'' \<and> ty \<noteq> ''error'')"
  by (auto simp: addMessageToChat_def stored_entry_def Let_def split: if_splits)

text \<open>
  Claim C10, as stated, fails: the guard of \<open>addMessageToChat\<close> excludes the types system
  and error and no other, so an entry of type \<open>info\<close> is added to the history and saved.
\<close>

theorem info_entry_is_stored:
  "addMessageToChat (Some ''aviso'') ''info'' ''Sistema'' 5 None True [] ''k'' empty_storage
     = ([\<lparr>e_text = Some ''aviso'', e_type = ''info'', e_sender = ''Sistema'',
          e_timestamp = 5, e_imageUrl = None\<rparr>],
        empty_storage\<lparr>st_chat := [''k'' \<mapsto>
          [\<lparr>e_text = Some ''aviso'', e_type = ''info'', e_sender = ''Sistema'',
            e_timestamp = 5, e_imageUrl = None\<rparr>]]\<rparr>)"
  by (simp add: addMessageToChat_def saveChatHistory_def or_null_def empty_storage_def Let_def)

text \<open>
  Claim C10, amended. An append of type system or error, or with \<open>save\<close> false, leaves the
  history and the storage as they are. An entry that an append adds is the entry of its
  own arguments, of a type other than system and error, added with \<open>save\<close> true; and every
  such entry, of whatever type, is added and saved when a storage key is given and the
  entry does not repeat the last one.
\<close>

theorem addMessageToChat_system_error_frame:
  "(ty = ''system'' \<or> ty = ''error'' \<or> \<not> save \<longrightarrow>
      addMessageToChat body ty sender timestamp imageUrl save h key st = (h, st))
   \<and> (\<forall>e \<in> set (fst (addMessageToChat body ty sender timestamp imageUrl save h key st)).
        e \<in> set h \<or>
        (e = stored_entry body ty sender timestamp imageUrl \<and> save \<and> ty \<noteq> ''system'' \<and> ty \<noteq> ''error''))
   \<and> (save \<and> ty \<noteq> ''system'' \<and> ty \<noteq> ''error'' \<and> key \<noteq> [] \<and>
        (h = [] \<or> last h \<noteq> stored_entry body ty sender timestamp imageUrl) \<longrightarrow>
        fst (addMessageToChat body ty sender timestamp imageUrl save h key st)
          = h @ [stored_entry body ty sender timestamp imageUrl]
        \<and> st_chat (snd (addMessageToChat body ty sender timestamp imageUrl save h key st)) key
          = Some (drop (length h + 1 - 200) (h @ [stored_entry body ty sender timestamp imageUrl])))"
proof -
  have 1: "ty = ''system'' \<or> ty = ''error'' \<or> \<not> save \<longrightarrow>
      addMessageToChat body ty sender timestamp imageUrl save h key st = (h, st)"
    by (auto simp: addMessageToChat_def)
  have 2: "\<forall>e \<in> set (fst (addMessageToChat body ty sender timestamp imageUrl save h key st)).
        e \<in> set h \<or>
        (e = stored_entry body ty sender timestamp imageUrl \<and> save \<and> ty \<noteq> ''system'' \<and> ty \<noteq> ''error'')"
    using add_adds_own_type [of _ body ty sender timestamp imageUrl save h key st] by blast
  have 3: "save \<and> ty \<noteq> ''system'' \<and> ty \<noteq> ''error'' \<and> key \<noteq> [] \<and>
        (h = [] \<or> last h \<noteq> stored_entry body ty sender timestamp imageUrl) \<longrightarrow>
        fst (addMessageToChat body ty sender timestamp imageUrl save h key st)
          = h @ [stored_entry body ty sender timestamp imageUrl]
        \<and> st_chat (snd (addMessageToChat body ty sender timestamp imageUrl save h key st)) key
          = Some (drop (length h + 1 - 200) (h @ [stored_entry body ty sender timestamp imageUrl]))"
    using add_fresh [of ty save key h body sender timestamp imageUrl st]
      saveChatHistory_persisted [of key "h @ [stored_entry body ty sender timestamp imageUrl]" st]
    by (simp add: savable_def)
  from 1 2 3 show ?thesis by (intro conjI)
qed

theorem addMessageToChat_system_error_frame_witness:
  "addMessageToChat (Some ''aviso'') ''system'' ''Sistema'' 5 None True [] ''k'' empty_storage = ([], empty_storage)
   \<and> addMessageToChat (Some ''fallo'') ''error'' ''Sistema'' 5 None True [] ''k'' empty_storage = ([], empty_storage)
   \<and> addMessageToChat (Some ''hola'') ''received'' ''Ana'' 5 None False [] ''k'' empty_storage = ([], empty_storage)
   \<and> fst (addMessageToChat (Some ''nota'') ''info'' ''Ana'' 5 None True [] ''k'' empty_storage)
       = [\<lparr>e_text = Some ''nota'', e_type = ''info'', e_sender = ''Ana'', e_timestamp = 5, e_imageUrl = None\<rparr>]
   \<and> st_chat (snd (addMessageToChat (Some ''nota'') ''info'' ''Ana'' 5 None True [] ''k'' empty_storage)) ''k''
       = Some [\<lparr>e_text = Some ''nota'', e_type = ''info'', e_sender = ''Ana'', e_timestamp = 5, e_imageUrl = None\<rparr>]
   \<and> list_all (\<lambda>e. e_type e \<noteq> ''system'' \<and> e_type e \<noteq> ''error'')
        (fst (addMessageToChat (Some ''hola'') ''sent'' ''Ana'' 5 None True [] ''k'' empty_storage))"
proof -
  note sys = addMessageToChat_system_error_frame [of "''system''" True "Some ''aviso''" "''Sistema''" 5 None "[]" "''k''" empty_storage]
  note err = addMessageToChat_system_error_frame [of "''error''" True "Some ''fallo''" "''Sistema''" 5 None "[]" "''k''" empty_storage]
  note nos = addMessageToChat_system_error_frame [of "''received''" False "Some ''hola''" "''Ana''" 5 None "[]" "''k''" empty_storage]
  note inf = addMessageToChat_system_error_frame [of "''info''" True "Some ''nota''" "''Ana''" 5 None "[]" "''k''" empty_storage]
  note snt = addMessageToChat_system_error_frame [of "''sent''" True "Some ''hola''" "''Ana''" 5 None "[]" "''k''" empty_storage]
  from sys [THEN conjunct1]
  have 1: "addMessageToChat (Some ''aviso'') ''system'' ''Sistema'' 5 None True [] ''k'' empty_storage = ([], empty_storage)"
    by simp
  from err [THEN conjunct1]
  have 2: "addMessageToChat (Some ''fallo'') ''error'' ''Sistema'' 5 None True [] ''k'' empty_storage = ([], empty_storage)"
    by simp
  from nos [THEN conjunct1]
  have 3: "addMessageToChat (Some ''hola'') ''received'' ''Ana'' 5 None False [] ''k'' empty_storage = ([], empty_storage)"
    by simp
  have e: "stored_entry (Some ''nota'') ''info'' ''Ana'' 5 None
      = \<lparr>e_text = Some ''nota'', e_type = ''info'', e_sender = ''Ana'', e_timestamp = 5, e_imageUrl = None\<rparr>"
    by (simp add: stored_entry_def or_null_def)
  from inf [THEN conjunct2, THEN conjunct2]
  have 4: "fst (addMessageToChat (Some ''nota'') ''info'' ''Ana'' 5 None True [] ''k'' empty_storage)
       = [\<lparr>e_text = Some ''nota'', e_type = ''info'', e_sender = ''Ana'', e_timestamp = 5, e_imageUrl = None\<rparr>]
     \<and> st_chat (snd (addMessageToChat (Some ''nota'') ''info'' ''Ana'' 5 None True [] ''k'' empty_storage)) ''k''
       = Some [\<lparr>e_text = Some ''nota'', e_type = ''info'', e_sender = ''Ana'', e_timestamp = 5, e_imageUrl = None\<rparr>]"
    by (simp add: e)
  from snt [THEN conjunct2, THEN conjunct1]
  have 5: "list_all (\<lambda>e. e_type e \<noteq> ''system'' \<and> e_type e \<noteq> ''error'')
        (fst (addMessageToChat (Some ''hola'') ''sent'' ''Ana'' 5 None True [] ''k'' empty_storage))"
    unfolding list_all_iff by (fastforce simp: stored_entry_def)
  from 1 2 3 4 5 show ?thesis by (intro conjI) (simp_all only: conj_imp_eq_imp_imp simp_thms)
qed

text \<open>
  Claim C9. What \<open>saveChatHistory\<close> stores under the key is a suffix of the history it
  was given, of length the smaller of 200 and the length of the history. The array in
  memory is not trimmed: after an append the caller holds the whole history, while the
  stored one is cut to its last 200 entries.
\<close>

theorem saveChatHistory_last_200:
  "(\<exists>older persisted.
      st_chat (saveChatHistory key h st) key = Some persisted \<and>
      h = older @ persisted \<and>
      length persisted = min 200 (length h) \<and>
      length persisted \<le> 200)
   \<and> (savable ty save key \<and> (h = [] \<or> last h \<noteq> stored_entry body ty sender timestamp imageUrl) \<longrightarrow>
        fst (addMessageToChat body ty sender timestamp imageUrl save h key st)
          = h @ [stored_entry body ty sender timestamp imageUrl]
        \<and> st_chat (snd (addMessageToChat body ty sender timestamp imageUrl save h key st)) key
          = Some (drop (length h + 1 - 200) (h @ [stored_entry body ty sender timestamp imageUrl])))"
proof -
  have "h = take (length h - 200) h @ drop (length h - 200) h"
    by simp
  moreover have "length (drop (length h - 200) h) = min 200 (length h)"
    by simp
  ultimately have first: "\<exists>older persisted.
      st_chat (saveChatHistory key h st) key = Some persisted \<and>
      h = older @ persisted \<and>
      length persisted = min 200 (length h) \<and>
      length persisted \<le> 200"
    using saveChatHistory_persisted [of key h st] by (metis min.cobounded1)
  show ?thesis
    using first add_fresh [of ty save key h body sender timestamp imageUrl st]
      saveChatHistory_persisted [of key "h @ [stored_entry body ty sender timestamp imageUrl]" st]
    by simp
qed

theorem saveChatHistory_last_200_witness:
  "length (fst (addMessageToChat (Some ''hola'') ''received'' ''Ana'' 7 None True
       (replicate 200 \<lparr>e_text = None, e_type = ''sent'', e_sender = ''yo'', e_timestamp = 1, e_imageUrl = None\<rparr>)
       ''k'' empty_storage)) = 201
   \<and> st_chat (snd (addMessageToChat (Some ''hola'') ''received'' ''Ana'' 7 None True
       (replicate 200 \<lparr>e_text = None, e_type = ''sent'', e_sender = ''yo'', e_timestamp = 1, e_imageUrl = None\<rparr>)
       ''k'' empty_storage)) ''k''
     = Some (replicate 199 \<lparr>e_text = None, e_type = ''sent'', e_sender = ''yo'', e_timestamp = 1, e_imageUrl = None\<rparr>
             @ [\<lparr>e_text = Some ''hola'', e_type = ''received'', e_sender = ''Ana'', e_timestamp = 7, e_imageUrl = None\<rparr>])"
  using saveChatHistory_last_200 [of "''k''"
      "replicate 200 \<lparr>e_text = None, e_type = ''sent'', e_sender = ''yo'', e_timestamp = 1, e_imageUrl = None\<rparr>"
      empty_storage "''received''" True "Some ''hola''" "''Ana''" 7 None]
  by (simp add: savable_def stored_entry_def or_null_def)

section \<open>Deleting a product and renumbering\<close>

subsection \<open>The example catalogs\<close>

lemma son1: "string_of_nat (Suc 0) = ''1''" by code_simp
lemma son2': "string_of_nat (Suc (Suc 0)) = ''2''" by code_simp

lemmas delete_defs = deleteProduct_def renumberProducts_def renumber_storage_def
  removeItem_product_def loadProductData_def catalog_123_def catalog_42_def example_card_def
  example_product_def createProductCardElement_def empty_storage_def or_null_def card_data_def
  grid_ids_def record_to_move_def

lemma delete_2_grid:
  "fst (deleteProduct ''2'' catalog_123) = Some [example_card ''1'' ''Mani'', example_card ''2'' ''Mango'']"
  by (simp add: delete_defs son1 son2')

lemma delete_2_storage:
  "st_products (snd (deleteProduct ''2'' catalog_123)) ''1'' = Some (example_product ''Mani'') \<and>
   st_products (snd (deleteProduct ''2'' catalog_123)) ''2'' = Some (example_product ''Mango'') \<and>
   st_products (snd (deleteProduct ''2'' catalog_123)) ''3'' = None"
  by (simp add: delete_defs son1 son2' Let_def)

subsection \<open>The ids of the cards after renumbering\<close>

lemma renumber_cards_ids:
  "map card_id (renumber_cards i cs) = map (\<lambda>j. string_of_nat (i + j + 1)) [0 ..< length cs]"
proof (induction cs arbitrary: i)
  case Nil
  then show ?case by simp
next
  case (Cons c cs)
  have "map card_id (renumber_cards i (c # cs)) =
          string_of_nat (i + 1) # map (\<lambda>j. string_of_nat (Suc i + j + 1)) [0 ..< length cs]"
    using Cons [of "Suc i"] by simp
  also have "\<dots> = map (\<lambda>j. string_of_nat (i + j + 1)) [0 ..< length (c # cs)]"
    by (simp add: map_upt_Suc del: upt_Suc)
  finally show ?case .
qed

lemma renumber_cards_length: "length (renumber_cards i cs) = length cs"
  by (induction cs arbitrary: i) simp_all

lemma renumberProducts_dense:
  "fst gs = Some cards \<Longrightarrow> dense_ids (grid_ids (fst (renumberProducts gs)))"
  by (cases "cards = []")
     (simp_all add: renumberProducts_def grid_ids_def dense_ids_def Let_def
        renumber_cards_ids [of 0, simplified] renumber_cards_length del: upt_Suc)

lemma deleteProduct_dense:
  assumes "fst gs = Some cards"
    and "list_ex (\<lambda>c. card_id c = pid) cards \<or> loadProductData pid (snd gs) \<noteq> None"
  shows "dense_ids (grid_ids (fst (deleteProduct pid gs)))"
proof (cases "list_ex (\<lambda>c. card_id c = pid) cards")
  case True
  with assms(1) have "deleteProduct pid gs =
      renumberProducts (Some (remove_first pid cards), removeItem_product pid (snd gs))"
    by (simp add: deleteProduct_def)
  then show ?thesis
    using renumberProducts_dense [of "(Some (remove_first pid cards), removeItem_product pid (snd gs))"]
    by simp
next
  case False
  with assms have "deleteProduct pid gs = renumberProducts (fst gs, removeItem_product pid (snd gs))"
    by (simp add: deleteProduct_def)
  then show ?thesis
    using renumberProducts_dense [of "(fst gs, removeItem_product pid (snd gs))" cards] assms(1)
    by simp
qed

subsection \<open>Decimal numerals are distinct\<close>

lemma nat_of_digits_snoc: "nat_of_digits (ds @ [c]) = 10 * nat_of_digits ds + digit_val c"
  by (simp add: nat_of_digits_def)

lemma digit_val_char_of: "d < 10 \<Longrightarrow> digit_val (char_of (48 + d)) = d"
  by (simp add: digit_val_def)

lemma nat_of_digits_string_of_nat: "nat_of_digits (string_of_nat n) = n"
proof (induction n rule: string_of_nat.induct)
  case (1 n)
  show ?case
  proof (cases "n < 10")
    case True
    then show ?thesis
      by (subst string_of_nat.simps) (simp add: nat_of_digits_def digit_val_char_of)
  next
    case False
    with 1 have "nat_of_digits (string_of_nat (n div 10)) = n div 10" by simp
    with False show ?thesis
      by (subst string_of_nat.simps) (simp add: nat_of_digits_snoc digit_val_char_of)
  qed
qed

lemma string_of_nat_inj: "string_of_nat a = string_of_nat b \<Longrightarrow> a = b"
  by (metis nat_of_digits_string_of_nat)

subsection \<open>The records after renumbering\<close>

lemma renumber_updates_mem:
  "u \<in> set (renumber_updates st i cs) \<longleftrightarrow>
     (\<exists>j < length cs. card_id (cs ! j) \<noteq> string_of_nat (i + j + 1) \<and>
        u = \<lparr>oldId = card_id (cs ! j), newId = string_of_nat (i + j + 1),
              oldData = record_to_move st (cs ! j)\<rparr>)"
proof (induction cs arbitrary: i)
  case Nil
  then show ?case by simp
next
  case (Cons c cs)
  let ?P = "\<lambda>i cs j. card_id (cs ! j) \<noteq> string_of_nat (i + j + 1) \<and>
        u = \<lparr>oldId = card_id (cs ! j), newId = string_of_nat (i + j + 1),
              oldData = record_to_move st (cs ! j)\<rparr>"
  have split: "(\<exists>j < length (c # cs). ?P i (c # cs) j) \<longleftrightarrow>
      ?P i (c # cs) 0 \<or> (\<exists>j < length cs. ?P (Suc i) cs j)"
  proof
    assume "\<exists>j < length (c # cs). ?P i (c # cs) j"
    then obtain j where j: "j < length (c # cs)" "?P i (c # cs) j" by blast
    show "?P i (c # cs) 0 \<or> (\<exists>j < length cs. ?P (Suc i) cs j)"
    proof (cases j)
      case 0
      with j show ?thesis by simp
    next
      case (Suc j')
      with j have "j' < length cs \<and> ?P (Suc i) cs j'" by simp
      then show ?thesis by blast
    qed
  next
    assume "?P i (c # cs) 0 \<or> (\<exists>j < length cs. ?P (Suc i) cs j)"
    then show "\<exists>j < length (c # cs). ?P i (c # cs) j"
    proof
      assume "?P i (c # cs) 0"
      then show ?thesis by (intro exI [of _ 0]) simp
    next
      assume "\<exists>j < length cs. ?P (Suc i) cs j"
      then obtain j where "j < length cs" "?P (Suc i) cs j" by blast
      then show ?thesis by (intro exI [of _ "Suc j"]) simp
    qed
  qed
  show ?case
    unfolding split using Cons [of "Suc i"] by auto
qed

lemma renumber_updates_distinct: "distinct (map newId (renumber_updates st i cs))"
proof (induction cs arbitrary: i)
  case Nil
  then show ?case by simp
next
  case (Cons c cs)
  have "string_of_nat (i + 1) \<notin> newId ` set (renumber_updates st (Suc i) cs)"
  proof
    assume "string_of_nat (i + 1) \<in> newId ` set (renumber_updates st (Suc i) cs)"
    then obtain u where "u \<in> set (renumber_updates st (Suc i) cs)" "newId u = string_of_nat (i + 1)"
      by auto
    then obtain j where "string_of_nat (Suc i + j + 1) = string_of_nat (i + 1)"
      by (auto simp: renumber_updates_mem)
    then show False
      using string_of_nat_inj by fastforce
  qed
  with Cons [of "Suc i"] show ?case by simp
qed

lemma save_loop_other:
  "k \<notin> newId ` set us \<Longrightarrow> foldl (\<lambda>m u. m(newId u \<mapsto> oldData u)) m us k = m k"
  by (induction us arbitrary: m) auto

lemma save_loop_saved:
  "distinct (map newId us) \<Longrightarrow> u \<in> set us \<Longrightarrow>
     foldl (\<lambda>m u. m(newId u \<mapsto> oldData u)) m us (newId u) = Some (oldData u)"
proof (induction us arbitrary: m)
  case Nil
  then show ?case by simp
next
  case (Cons a us)
  show ?case
  proof (cases "u = a")
    case True
    with Cons.prems have "newId a \<notin> newId ` set us" by simp
    then have "foldl (\<lambda>m u. m(newId u \<mapsto> oldData u)) (m(newId a \<mapsto> oldData a)) us (newId a)
        = (m(newId a \<mapsto> oldData a)) (newId a)"
      by (rule save_loop_other)
    also have "\<dots> = Some (oldData a)"
      by simp
    finally show ?thesis
      unfolding True by (simp only: foldl_Cons)
  next
    case False
    with Cons show ?thesis by simp
  qed
qed

lemma renumber_storage_index:
  assumes dist: "distinct (map card_id cs)" and j: "j < length cs"
  shows "st_products (renumber_storage (renumber_updates st 0 cs) st) (string_of_nat (j + 1)) =
           (if card_id (cs ! j) \<noteq> string_of_nat (j + 1) then Some (record_to_move st (cs ! j))
            else st_products st (string_of_nat (j + 1)))"
proof (cases "card_id (cs ! j) \<noteq> string_of_nat (j + 1)")
  case True
  let ?u = "\<lparr>oldId = card_id (cs ! j), newId = string_of_nat (j + 1),
             oldData = record_to_move st (cs ! j)\<rparr>"
  from True j have "?u \<in> set (renumber_updates st 0 cs)"
    by (auto simp: renumber_updates_mem)
  then have "foldl (\<lambda>m u. m(newId u \<mapsto> oldData u)) m (renumber_updates st 0 cs) (newId ?u)
      = Some (oldData ?u)" for m
    by (rule save_loop_saved [OF renumber_updates_distinct])
  with True show ?thesis
    by (simp add: renumber_storage_def Let_def)
next
  case False
  let ?k = "string_of_nat (j + 1)"
  have notnew: "?k \<notin> newId ` set (renumber_updates st 0 cs)"
  proof
    assume "?k \<in> newId ` set (renumber_updates st 0 cs)"
    then obtain j' where "j' < length cs" "card_id (cs ! j') \<noteq> string_of_nat (j' + 1)"
      "string_of_nat (j' + 1) = ?k"
      by (auto simp: renumber_updates_mem)
    with False show False
      using string_of_nat_inj by fastforce
  qed
  have notold: "?k \<notin> oldId ` set (renumber_updates st 0 cs)"
  proof
    assume "?k \<in> oldId ` set (renumber_updates st 0 cs)"
    then obtain j' where j': "j' < length cs" "card_id (cs ! j') \<noteq> string_of_nat (j' + 1)"
      "card_id (cs ! j') = ?k"
      by (auto simp: renumber_updates_mem)
    from dist have "\<forall>a < length cs. \<forall>b < length cs. a \<noteq> b \<longrightarrow> card_id (cs ! a) \<noteq> card_id (cs ! b)"
      by (simp add: distinct_conv_nth)
    with False j j'(1,3) have "j' = j"
      by metis
    with j'(2) False show False by simp
  qed
  from notnew notold False show ?thesis
    by (simp add: renumber_storage_def Let_def save_loop_other)
qed

lemma renumber_storage_old_key:
  assumes "j < length cs" and "card_id (cs ! j) \<notin> (\<lambda>i. string_of_nat (i + 1)) ` {0 ..< length cs}"
  shows "st_products (renumber_storage (renumber_updates st 0 cs) st) (card_id (cs ! j)) = None"
proof -
  let ?k = "card_id (cs ! j)"
  from assms have changed: "?k \<noteq> string_of_nat (j + 1)" by auto
  have notnew: "?k \<notin> newId ` set (renumber_updates st 0 cs)"
    using assms(2) by (auto simp: renumber_updates_mem)
  from changed assms(1) have "\<lparr>oldId = ?k, newId = string_of_nat (j + 1),
             oldData = record_to_move st (cs ! j)\<rparr> \<in> set (renumber_updates st 0 cs)"
    by (auto simp: renumber_updates_mem)
  then have old: "?k \<in> oldId ` set (renumber_updates st 0 cs)"
    by force
  from notnew old show ?thesis
    by (simp add: renumber_storage_def Let_def save_loop_other)
qed

lemma renumber_storage_untouched:
  assumes "k \<notin> card_id ` set cs" and "k \<notin> (\<lambda>i. string_of_nat (i + 1)) ` {0 ..< length cs}"
  shows "st_products (renumber_storage (renumber_updates st 0 cs) st) k = st_products st k"
proof -
  have notnew: "k \<notin> newId ` set (renumber_updates st 0 cs)"
    using assms(2) by (auto simp: renumber_updates_mem)
  have notold: "k \<notin> oldId ` set (renumber_updates st 0 cs)"
    using assms(1) by (auto simp: renumber_updates_mem)
  from notnew notold show ?thesis
    by (simp add: renumber_storage_def Let_def save_loop_other)
qed

lemma renumber_storage_Nil: "renumber_storage [] st = st"
  by (simp add: renumber_storage_def)

lemma remove_first_subset: "set (remove_first pid cs) \<subseteq> set cs"
  by (induction cs) auto

lemma remove_first_distinct:
  "distinct (map card_id cs) \<Longrightarrow> distinct (map card_id (remove_first pid cs))"
proof (induction cs)
  case Nil
  then show ?case by simp
next
  case (Cons c cs)
  then show ?case
    using remove_first_subset [of pid cs] by auto
qed

lemma remove_first_no_pid:
  "distinct (map card_id cs) \<Longrightarrow> pid \<notin> card_id ` set (remove_first pid cs)"
  by (induction cs) auto

lemma deleteProduct_found:
  assumes "fst gs = Some cards" and "list_ex (\<lambda>c. card_id c = pid) cards"
  shows "deleteProduct pid gs =
           (if remove_first pid cards = [] then (Some [], removeItem_product pid (snd gs))
            else (Some (renumber_cards 0 (remove_first pid cards)),
                  renumber_storage
                    (renumber_updates (removeItem_product pid (snd gs)) 0 (remove_first pid cards))
                    (removeItem_product pid (snd gs))))"
  using assms
  by (simp add: deleteProduct_def renumberProducts_def Let_def renumber_storage_Nil)

lemma deleteProduct_records:
  assumes grid: "fst gs = Some cards"
    and found: "list_ex (\<lambda>c. card_id c = pid) cards"
    and dist: "distinct (map card_id cards)"
    and stored: "list_all (\<lambda>c. st_products (snd gs) (card_id c) \<noteq> None) cards"
    and j: "j < length (remove_first pid cards)"
  shows "st_products (snd (deleteProduct pid gs)) (string_of_nat (j + 1)) =
           st_products (snd gs) (card_id (remove_first pid cards ! j))"
proof -
  let ?cs = "remove_first pid cards"
  let ?st1 = "removeItem_product pid (snd gs)"
  let ?c = "?cs ! j"
  from j have ne: "?cs \<noteq> []" by auto
  from j have mem: "?c \<in> set cards"
    using remove_first_subset [of pid cards] nth_mem by blast
  from j have "card_id ?c \<in> card_id ` set ?cs" by simp
  with remove_first_no_pid [OF dist, of pid] have not_pid: "card_id ?c \<noteq> pid" by metis
  from mem stored obtain d where d: "st_products (snd gs) (card_id ?c) = Some d"
    by (auto simp: list_all_iff)
  with not_pid have moved: "record_to_move ?st1 ?c = d"
    by (simp add: record_to_move_def loadProductData_def removeItem_product_def)
  have "st_products (snd (deleteProduct pid gs)) (string_of_nat (j + 1)) =
      st_products (renumber_storage (renumber_updates ?st1 0 ?cs) ?st1) (string_of_nat (j + 1))"
    using ne by (simp add: deleteProduct_found [OF grid found])
  also have "\<dots> = (if card_id ?c \<noteq> string_of_nat (j + 1) then Some (record_to_move ?st1 ?c)
            else st_products ?st1 (string_of_nat (j + 1)))"
    by (rule renumber_storage_index [OF remove_first_distinct [OF dist] j])
  also have "\<dots> = st_products (snd gs) (card_id ?c)"
    using d moved not_pid by (auto simp: removeItem_product_def)
  finally show ?thesis .
qed

lemma deleteProduct_old_keys:
  assumes grid: "fst gs = Some cards"
    and found: "list_ex (\<lambda>c. card_id c = pid) cards"
    and dist: "distinct (map card_id cards)"
    and k: "k \<in> card_id ` set cards"
    and out: "k \<notin> (\<lambda>i. string_of_nat (i + 1)) ` {0 ..< length (remove_first pid cards)}"
  shows "st_products (snd (deleteProduct pid gs)) k = None"
proof -
  let ?cs = "remove_first pid cards"
  let ?st1 = "removeItem_product pid (snd gs)"
  show ?thesis
  proof (cases "k \<in> card_id ` set ?cs")
    case True
    then obtain j where j: "j < length ?cs" "card_id (?cs ! j) = k"
      by (auto simp: in_set_conv_nth)
    then have ne: "?cs \<noteq> []" by auto
    from j out have "st_products (renumber_storage (renumber_updates ?st1 0 ?cs) ?st1) (card_id (?cs ! j)) = None"
      by (intro renumber_storage_old_key) auto
    with j ne show ?thesis
      by (simp add: deleteProduct_found [OF grid found])
  next
    case False
    have kpid: "k = pid"
    proof (rule ccontr)
      assume "k \<noteq> pid"
      have "c \<in> set cards \<Longrightarrow> card_id c \<noteq> pid \<Longrightarrow> c \<in> set (remove_first pid cards)" for c
        by (induction cards) auto
      with k \<open>k \<noteq> pid\<close> False show False by auto
    qed
    have "st_products (renumber_storage (renumber_updates ?st1 0 ?cs) ?st1) k = st_products ?st1 k"
      using False out by (rule renumber_storage_untouched)
    then show ?thesis
      using kpid by (simp add: deleteProduct_found [OF grid found] removeItem_product_def)
  qed
qed

text \<open>
  Claim C6, as stated, fails for a delete that finds neither a card nor a record: the
  grid holding the single product 42 keeps the id 42 when product 7 is deleted, and 42
  alone is not the range \<open>1, ..., N\<close>.
\<close>

theorem delete_missing_keeps_gap:
  "grid_ids (fst (deleteProduct ''7'' catalog_42)) = [''42''] \<and>
   \<not> dense_ids (grid_ids (fst (deleteProduct ''7'' catalog_42)))"
  by (simp add: delete_defs dense_ids_def son1)

text \<open>
  Claim C6, amended. Deleting product 2 from the catalog with products 1, 2, 3 leaves
  the cards 1 and 2, the card and the record that were under id 3 now under id 2, and
  no record under id 3. In general, after a delete that finds the card of the product
  in the grid, or a stored record of it, the ids of the cards are \<open>1, ..., N\<close> in grid
  order. When the card is found, the ids of the cards are distinct and every card has a
  stored record, the record of the card now at position \<open>j + 1\<close> is stored under the id
  \<open>j + 1\<close>, and no record remains under an id of a card that lies outside \<open>1, ..., N\<close>.
\<close>

theorem deleteProduct_renumbers:
  "fst (deleteProduct ''2'' catalog_123) = Some [example_card ''1'' ''Mani'', example_card ''2'' ''Mango'']
   \<and> st_products (snd (deleteProduct ''2'' catalog_123)) ''1'' = Some (example_product ''Mani'')
   \<and> st_products (snd (deleteProduct ''2'' catalog_123)) ''2'' = Some (example_product ''Mango'')
   \<and> st_products (snd (deleteProduct ''2'' catalog_123)) ''3'' = None
   \<and> (fst gs = Some cards \<and>
       (list_ex (\<lambda>c. card_id c = pid) cards \<or> loadProductData pid (snd gs) \<noteq> None) \<longrightarrow>
         dense_ids (grid_ids (fst (deleteProduct pid gs))))
   \<and> (fst gs = Some cards \<and> list_ex (\<lambda>c. card_id c = pid) cards \<and>
       distinct (map card_id cards) \<and>
       list_all (\<lambda>c. st_products (snd gs) (card_id c) \<noteq> None) cards \<and>
       j < length (remove_first pid cards) \<longrightarrow>
         st_products (snd (deleteProduct pid gs)) (string_of_nat (j + 1)) =
           st_products (snd gs) (card_id (remove_first pid cards ! j)))
   \<and> (fst gs = Some cards \<and> list_ex (\<lambda>c. card_id c = pid) cards \<and>
       distinct (map card_id cards) \<and> k \<in> card_id ` set cards \<and>
       k \<notin> (\<lambda>i. string_of_nat (i + 1)) ` {0 ..< length (remove_first pid cards)} \<longrightarrow>
         st_products (snd (deleteProduct pid gs)) k = None)"
proof -
  have e1: "st_products (snd (deleteProduct ''2'' catalog_123)) ''1'' = Some (example_product ''Mani'')"
    and e2: "st_products (snd (deleteProduct ''2'' catalog_123)) ''2'' = Some (example_product ''Mango'')"
    and e3: "st_products (snd (deleteProduct ''2'' catalog_123)) ''3'' = None"
    using delete_2_storage by simp_all
  have dense: "fst gs = Some cards \<and>
       (list_ex (\<lambda>c. card_id c = pid) cards \<or> loadProductData pid (snd gs) \<noteq> None) \<longrightarrow>
         dense_ids (grid_ids (fst (deleteProduct pid gs)))"
    by (intro impI, elim conjE, erule (1) deleteProduct_dense)
  have moved: "fst gs = Some cards \<and> list_ex (\<lambda>c. card_id c = pid) cards \<and>
       distinct (map card_id cards) \<and>
       list_all (\<lambda>c. st_products (snd gs) (card_id c) \<noteq> None) cards \<and>
       j < length (remove_first pid cards) \<longrightarrow>
         st_products (snd (deleteProduct pid gs)) (string_of_nat (j + 1)) =
           st_products (snd gs) (card_id (remove_first pid cards ! j))"
    by (intro impI, elim conjE, erule (4) deleteProduct_records)
  have gone: "fst gs = Some cards \<and> list_ex (\<lambda>c. card_id c = pid) cards \<and>
       distinct (map card_id cards) \<and> k \<in> card_id ` set cards \<and>
       k \<notin> (\<lambda>i. string_of_nat (i + 1)) ` {0 ..< length (remove_first pid cards)} \<longrightarrow>
         st_products (snd (deleteProduct pid gs)) k = None"
    by (intro impI, elim conjE, erule (4) deleteProduct_old_keys)
  show ?thesis
    by (rule conjI delete_2_grid e1 e2 e3 dense moved gone)+
qed

theorem deleteProduct_renumbers_witness:
  "dense_ids (grid_ids (fst (deleteProduct ''2'' catalog_123)))
   \<and> grid_ids (fst (deleteProduct ''2'' catalog_123)) = [''1'', ''2'']
   \<and> st_products (snd (deleteProduct ''2'' catalog_123)) (string_of_nat (1 + 1)) =
       st_products (snd catalog_123) ''3''
   \<and> st_products (snd (deleteProduct ''2'' catalog_123)) ''3'' = None"
proof -
  let ?cards = "[example_card ''1'' ''Mani'', example_card ''2'' ''Coco'', example_card ''3'' ''Mango'']"
  have grid: "fst catalog_123 = Some ?cards"
    by (simp add: catalog_123_def)
  have found: "list_ex (\<lambda>c. card_id c = ''2'') ?cards"
    by (simp add: example_card_def createProductCardElement_def)
  have dist: "distinct (map card_id ?cards)"
    by (simp add: example_card_def createProductCardElement_def)
  have stored: "list_all (\<lambda>c. st_products (snd catalog_123) (card_id c) \<noteq> None) ?cards"
    by (simp add: catalog_123_def example_card_def createProductCardElement_def empty_storage_def)
  have rest: "remove_first ''2'' ?cards = [example_card ''1'' ''Mani'', example_card ''3'' ''Mango'']"
    by (simp add: example_card_def createProductCardElement_def)
  have j: "1 < length (remove_first ''2'' ?cards)"
    by (simp only: rest) simp
  have third: "card_id (remove_first ''2'' ?cards ! 1) = ''3''"
    by (simp only: rest) (simp add: example_card_def createProductCardElement_def)
  have k: "''3'' \<in> card_id ` set ?cards"
    by (simp add: example_card_def createProductCardElement_def)
  have out: "''3'' \<notin> (\<lambda>i. string_of_nat (i + 1)) ` {0 ..< length (remove_first ''2'' ?cards)}"
  proof -
    have "length (remove_first ''2'' ?cards) = 2"
      by (simp only: rest) simp
    moreover have "{0 ..< 2 :: nat} = {0, 1}"
      by auto
    ultimately show ?thesis
      by (simp only: image_insert image_empty) (simp add: son1 son2')
  qed
  note inst = deleteProduct_renumbers [of catalog_123 ?cards "''2''" 1 "''3''"]
  from inst grid found have "dense_ids (grid_ids (fst (deleteProduct ''2'' catalog_123)))"
    by blast
  moreover from inst have "fst (deleteProduct ''2'' catalog_123) =
      Some [example_card ''1'' ''Mani'', example_card ''2'' ''Mango'']"
    by blast
  then have "grid_ids (fst (deleteProduct ''2'' catalog_123)) = [''1'', ''2'']"
    by (simp add: grid_ids_def example_card_def createProductCardElement_def)
  moreover from inst grid found dist stored j
  have "st_products (snd (deleteProduct ''2'' catalog_123)) (string_of_nat (1 + 1)) =
           st_products (snd catalog_123) (card_id (remove_first ''2'' ?cards ! 1))"
    by blast
  moreover from inst grid found dist k out
  have "st_products (snd (deleteProduct ''2'' catalog_123)) ''3'' = None"
    by blast
  ultimately show ?thesis
    by (simp only: third simp_thms)
qed

section \<open>What a batch reads and writes\<close>

lemma processUpdate_unfold:
  "u_message u = None \<Longrightarrow> processUpdate cfg gf bt s u = advance_cursor bt (update_id u) s"
  "u_message u = Some msg \<Longrightarrow> processUpdate cfg gf bt s u =
     (if foreign_chat cfg bt msg then advance_cursor bt (update_id u) s
      else (advance_cursor bt (update_id u) s)
             \<lparr>page := processMessage cfg gf bt msg (page s)\<rparr>)"
  by (cases bt; simp add: processUpdate_def foreign_chat_def advance_cursor_def Let_def)+

lemma processUpdate_foreign:
  "u_message u = Some msg \<Longrightarrow> foreign_chat cfg bt msg \<Longrightarrow>
     processUpdate cfg gf bt s u = advance_cursor bt (update_id u) s"
  by (simp add: processUpdate_unfold)

lemma processUpdate_page:
  "page (processUpdate cfg gf bt s u) =
     (case u_message u of
        None \<Rightarrow> page s
      | Some msg \<Rightarrow> if foreign_chat cfg bt msg then page s else processMessage cfg gf bt msg (page s))"
  by (cases bt; cases "u_message u")
     (simp_all add: processUpdate_unfold advance_cursor_def)

lemma processUpdate_cursor:
  "cursor bt (processUpdate cfg gf bt s u) = update_id u"
  by (cases bt; cases "u_message u")
     (simp_all add: processUpdate_unfold advance_cursor_def cursor_def)

lemma processUpdate_other_cursor:
  "bt' \<noteq> bt \<Longrightarrow> cursor bt' (processUpdate cfg gf bt s u) = cursor bt' s"
  by (cases bt; cases bt'; cases "u_message u")
     (simp_all add: processUpdate_unfold advance_cursor_def cursor_def)

lemma processUpdate_loop_vars: "loop_vars (processUpdate cfg gf bt s u) = loop_vars s"
  by (cases bt; cases "u_message u")
     (simp_all add: processUpdate_unfold advance_cursor_def loop_vars_def)

lemma processUpdates_loop_vars: "loop_vars (processUpdates cfg gf bt us s) = loop_vars s"
  unfolding processUpdates_def
  by (induction us arbitrary: s) (simp_all add: processUpdate_loop_vars)

lemma processUpdates_cursor:
  "cursor bt (processUpdates cfg gf bt us s) = (if us = [] then cursor bt s else update_id (last us))"
  unfolding processUpdates_def
  by (induction us arbitrary: s) (simp_all add: processUpdate_cursor)

lemma processUpdates_other_cursor:
  "bt' \<noteq> bt \<Longrightarrow> cursor bt' (processUpdates cfg gf bt us s) = cursor bt' s"
  unfolding processUpdates_def
  by (induction us arbitrary: s) (simp_all add: processUpdate_other_cursor)

lemma state_eqI:
  assumes "erase_cursors s = erase_cursors t"
  shows "page s = page t" "loop_vars s = loop_vars t"
proof -
  have "page (erase_cursors s) = page (erase_cursors t)"
       "loop_vars (erase_cursors s) = loop_vars (erase_cursors t)"
    using assms by simp_all
  then show "page s = page t" "loop_vars s = loop_vars t"
    by (simp_all add: erase_cursors_def loop_vars_def)
qed

lemma erase_eqI:
  assumes "page s = page t" "loop_vars s = loop_vars t"
  shows "erase_cursors s = erase_cursors t"
  using assms by (cases s; cases t) (simp add: erase_cursors_def loop_vars_def)

lemma processUpdate_erase:
  assumes "erase_cursors s = erase_cursors t"
  shows "erase_cursors (processUpdate cfg gf bt s u) = erase_cursors (processUpdate cfg gf bt t u)"
proof (rule erase_eqI)
  show "page (processUpdate cfg gf bt s u) = page (processUpdate cfg gf bt t u)"
    by (simp only: processUpdate_page state_eqI(1) [OF assms])
  show "loop_vars (processUpdate cfg gf bt s u) = loop_vars (processUpdate cfg gf bt t u)"
    by (simp only: processUpdate_loop_vars state_eqI(2) [OF assms])
qed

lemma processUpdates_erase:
  "erase_cursors s = erase_cursors t \<Longrightarrow>
     erase_cursors (processUpdates cfg gf bt us s) = erase_cursors (processUpdates cfg gf bt us t)"
proof (induction us arbitrary: s t)
  case Nil
  then show ?case by (simp add: processUpdates_def)
next
  case (Cons u us)
  from Cons.prems have "erase_cursors (processUpdate cfg gf bt s u) = erase_cursors (processUpdate cfg gf bt t u)"
    by (rule processUpdate_erase)
  then have "erase_cursors (processUpdates cfg gf bt us (processUpdate cfg gf bt s u)) =
      erase_cursors (processUpdates cfg gf bt us (processUpdate cfg gf bt t u))"
    by (rule Cons.IH)
  then show ?case by (simp add: processUpdates_def)
qed

lemma erase_advance: "erase_cursors (advance_cursor bt n s) = erase_cursors s"
  by (cases bt) (simp_all add: erase_cursors_def advance_cursor_def)

lemma processUpdates_append:
  "processUpdates cfg gf bt (us @ vs) s = processUpdates cfg gf bt vs (processUpdates cfg gf bt us s)"
  by (simp add: processUpdates_def)

lemma processUpdates_skip_foreign:
  assumes "u_message u = Some msg" "foreign_chat cfg bt msg"
  shows "erase_cursors (processUpdates cfg gf bt (us @ u # vs) s) =
         erase_cursors (processUpdates cfg gf bt (us @ vs) s)"
proof -
  let ?s1 = "processUpdates cfg gf bt us s"
  have "processUpdates cfg gf bt (us @ u # vs) s =
      processUpdates cfg gf bt vs (processUpdate cfg gf bt ?s1 u)"
    by (simp add: processUpdates_def)
  also have "processUpdate cfg gf bt ?s1 u = advance_cursor bt (update_id u) ?s1"
    using assms by (rule processUpdate_foreign)
  finally have "erase_cursors (processUpdates cfg gf bt (us @ u # vs) s) =
      erase_cursors (processUpdates cfg gf bt vs (advance_cursor bt (update_id u) ?s1))"
    by simp
  also have "\<dots> = erase_cursors (processUpdates cfg gf bt vs ?s1)"
    by (rule processUpdates_erase) (rule erase_advance)
  finally show ?thesis
    by (simp only: processUpdates_append)
qed

text \<open>
  Claim C3. An update whose message comes from a chat other than the one bound to the
  channel that fetched it only advances the cursor of that channel: the storage (product
  records, ticker, payment card, chat history), the display (grid, ticker, notifications,
  roulette button), the chat history and the log are as before, whatever the text of the
  message. A batch with such an update ends, cursors apart, in the state the batch
  without it ends in.
\<close>

theorem foreign_chat_ignored:
  "(u_message u = Some msg \<and> foreign_chat cfg bt msg \<longrightarrow>
      processUpdate cfg gf bt s u = advance_cursor bt (update_id u) s)
   \<and> (u_message u = Some msg \<and> foreign_chat cfg bt msg \<longrightarrow>
      erase_cursors (processUpdates cfg gf bt (us @ u # vs) s) =
      erase_cursors (processUpdates cfg gf bt (us @ vs) s))"
  using processUpdate_foreign [of u msg cfg bt gf s]
    processUpdates_skip_foreign [of u msg cfg bt gf us vs s]
  by blast

theorem foreign_chat_ignored_witness:
  "processUpdate example_config (\<lambda>useAux file_id. None) Primary polling_state
      \<lparr>update_id = 5, u_message = Some intruder_message\<rparr>
     = polling_state\<lparr>lastPrimaryUpdateId := 5\<rparr>
   \<and> processUpdate example_config (\<lambda>useAux file_id. None) Auxiliary polling_state
      \<lparr>update_id = 5, u_message = Some intruder_message\<rparr>
     = polling_state\<lparr>lastAuxiliaryUpdateId := 5\<rparr>
   \<and> erase_cursors (processUpdates example_config (\<lambda>useAux file_id. None) Primary
        ([] @ \<lparr>update_id = 5, u_message = Some intruder_message\<rparr> # []) polling_state)
     = erase_cursors (processUpdates example_config (\<lambda>useAux file_id. None) Primary ([] @ []) polling_state)"
proof -
  let ?u = "\<lparr>update_id = 5, u_message = Some intruder_message\<rparr>"
  have p: "u_message ?u = Some intruder_message \<and> foreign_chat example_config Primary intruder_message"
    by (simp add: foreign_chat_def example_config_def intruder_message_def)
  have a: "u_message ?u = Some intruder_message \<and> foreign_chat example_config Auxiliary intruder_message"
    by (simp add: foreign_chat_def example_config_def intruder_message_def)
  from p foreign_chat_ignored [of ?u intruder_message example_config Primary "\<lambda>useAux file_id. None" polling_state "[]" "[]"]
  have 1: "processUpdate example_config (\<lambda>useAux file_id. None) Primary polling_state ?u
            = advance_cursor Primary (update_id ?u) polling_state"
    and 3: "erase_cursors (processUpdates example_config (\<lambda>useAux file_id. None) Primary ([] @ ?u # []) polling_state)
     = erase_cursors (processUpdates example_config (\<lambda>useAux file_id. None) Primary ([] @ []) polling_state)"
    by blast+
  from a foreign_chat_ignored [of ?u intruder_message example_config Auxiliary "\<lambda>useAux file_id. None" polling_state "[]" "[]"]
  have 2: "processUpdate example_config (\<lambda>useAux file_id. None) Auxiliary polling_state ?u
            = advance_cursor Auxiliary (update_id ?u) polling_state"
    by blast
  from 1 2 3 show ?thesis
    by (simp add: advance_cursor_def)
qed

section \<open>Rescheduling after a fetch\<close>

lemma primary_failure_timer:
  assumes "truthy_handle (primaryUpdateInterval s)"
    and "fetch_failed (env_getUpdates env False (lastPrimaryUpdateId s + 1))"
  shows "\<exists>h. primaryUpdateInterval (fetchPrimaryUpdates cfg env s) = HTimer h \<and>
             (h, Primary, 100) \<in> set (timers (fetchPrimaryUpdates cfg env s)) \<and>
             set (timers (fetchPrimaryUpdates cfg env s)) \<subseteq> insert (h, Primary, 100) (set (timers s))"
  using assms
  by (cases "env_getUpdates env False (lastPrimaryUpdateId s + 1)"; cases "primaryUpdateInterval s")
     (auto simp: fetch_failed_def fetchPrimaryUpdates_def primary_finally_def scheduleNextPrimaryPoll_def
        setTimeout_def clearTimeout_def truthy_handle_def log_in_state_def Let_def)

lemma auxiliary_failure_timer:
  assumes "truthy_handle (auxiliaryUpdateInterval s)"
    and "truthy_str (EFFECTIVE_AUX_BOT_TOKEN cfg)" "truthy_str (AUX_CHAT_ID cfg)"
    and "fetch_failed (env_getUpdates env True (lastAuxiliaryUpdateId s + 1))"
  shows "\<exists>h. auxiliaryUpdateInterval (fetchAuxiliaryUpdates cfg env s) = HTimer h \<and>
             (h, Auxiliary, 100) \<in> set (timers (fetchAuxiliaryUpdates cfg env s)) \<and>
             set (timers (fetchAuxiliaryUpdates cfg env s)) \<subseteq> insert (h, Auxiliary, 100) (set (timers s))"
  using assms
  by (cases "env_getUpdates env True (lastAuxiliaryUpdateId s + 1)"; cases "auxiliaryUpdateInterval s")
     (auto simp: fetch_failed_def fetchAuxiliaryUpdates_def auxiliary_finally_def scheduleNextAuxiliaryPoll_def
        setTimeout_def clearTimeout_def truthy_handle_def log_in_state_def Let_def)

text \<open>
  Claim C1. On a loop that is polling, after a fetch that throws or returns null, the
  handle of the loop is a pending timer of 100 ms, and no timer is pending that was not
  pending before, apart from this one: the 15000 ms timer set by the failure branch has
  been cleared by the \<open>finally\<close> block, which schedules the next poll again. The claim
  asks for the 15000 ms delay there. In the example both failures leave the single
  100 ms timer, as the fetch of an empty list does.
\<close>

theorem fetch_failure_backoff_overridden:
  "(truthy_handle (primaryUpdateInterval s) \<and>
    fetch_failed (env_getUpdates env False (lastPrimaryUpdateId s + 1)) \<longrightarrow>
      (\<exists>h. primaryUpdateInterval (fetchPrimaryUpdates cfg env s) = HTimer h \<and>
            (h, Primary, 100) \<in> set (timers (fetchPrimaryUpdates cfg env s)) \<and>
            set (timers (fetchPrimaryUpdates cfg env s)) \<subseteq> insert (h, Primary, 100) (set (timers s))))
   \<and> (truthy_handle (auxiliaryUpdateInterval s) \<and>
       truthy_str (EFFECTIVE_AUX_BOT_TOKEN cfg) \<and> truthy_str (AUX_CHAT_ID cfg) \<and>
       fetch_failed (env_getUpdates env True (lastAuxiliaryUpdateId s + 1)) \<longrightarrow>
      (\<exists>h. auxiliaryUpdateInterval (fetchAuxiliaryUpdates cfg env s) = HTimer h \<and>
            (h, Auxiliary, 100) \<in> set (timers (fetchAuxiliaryUpdates cfg env s)) \<and>
            set (timers (fetchAuxiliaryUpdates cfg env s)) \<subseteq> insert (h, Auxiliary, 100) (set (timers s))))"
  using primary_failure_timer [of s env cfg] auxiliary_failure_timer [of s cfg env]
  by blast

lemmas poll_defs = fetchPrimaryUpdates_def fetchAuxiliaryUpdates_def primary_finally_def
  auxiliary_finally_def scheduleNextPrimaryPoll_def scheduleNextAuxiliaryPoll_def
  setTimeout_def clearTimeout_def truthy_handle_def log_in_state_def processUpdates_def

theorem fetch_failure_backoff_overridden_witness:
  "timers (fetchPrimaryUpdates example_config (env_of FetchThrows) polling_state) = [(2, Primary, 100)]
   \<and> timers (fetchPrimaryUpdates example_config (env_of FetchNull) polling_state) = [(2, Primary, 100)]
   \<and> timers (fetchAuxiliaryUpdates example_config (env_of FetchThrows) polling_state) = [(2, Auxiliary, 100)]
   \<and> timers (fetchAuxiliaryUpdates example_config (env_of FetchNull) polling_state) = [(2, Auxiliary, 100)]
   \<and> timers (fetchPrimaryUpdates example_config (env_of (FetchUpdates [])) polling_state) = [(1, Primary, 100)]"
proof -
  have pre: "truthy_handle (primaryUpdateInterval polling_state) \<and>
      fetch_failed (env_getUpdates (env_of FetchThrows) False (lastPrimaryUpdateId polling_state + 1))"
    by (simp add: truthy_handle_def polling_state_def init_state_def env_of_def fetch_failed_def)
  from pre fetch_failure_backoff_overridden [of polling_state "env_of FetchThrows" example_config]
  have "set (timers (fetchPrimaryUpdates example_config (env_of FetchThrows) polling_state))
          \<subseteq> {(h, Primary, 100) | h. True}"
    by (auto simp: polling_state_def init_state_def)
  then show ?thesis
    by (simp add: poll_defs polling_state_def init_state_def example_config_def env_of_def
        truthy_str_def or_null_def Let_def)
qed

section \<open>Product updates without an image\<close>

lemma startsWith_append: "startsWith t p \<Longrightarrow> \<exists>r. t = p @ r"
  by (metis startsWith_def append_take_drop_id)

lemma parse_Nil: "parseProductCommand [] = None"
  by (simp add: parseProductCommand_def)

lemma parse_startsWith: "parseProductCommand t = Some pd \<Longrightarrow> startsWith t ''*DULCES*''"
  by (simp add: parseProductCommand_def split: if_splits)

lemma parse_id: "parseProductCommand t = Some pd \<Longrightarrow> all_digits (cmd_id pd)"
  by (auto simp: parseProductCommand_def Let_def split: if_splits list.splits prod.splits)

lemma dulces_not_earlier: "startsWith t ''*DULCES*'' \<Longrightarrow> \<not> earlier_command t"
proof -
  assume "startsWith t ''*DULCES*''"
  then obtain r where "t = ''*DULCES*'' @ r" using startsWith_append by blast
  then show ?thesis
    by (simp add: earlier_command_def startsWith_def)
qed

lemma processMessage_product:
  assumes "\<not> earlier_command (str_or_empty (m_text msg))"
    and "parseProductCommand (command_source msg) = Some pd"
  shows "processMessage cfg gf bt msg s = handleProductUpdate cfg gf bt msg pd s"
proof -
  from assms(2) have "command_source msg \<noteq> []"
    using parse_Nil by auto
  with assms show ?thesis
    by (simp add: processMessage_def earlier_command_def Let_def)
qed

lemma processMessage_plain:
  assumes "\<not> earlier_command (str_or_empty (m_text msg))"
    and "parseProductCommand (command_source msg) = None"
  shows "processMessage cfg gf bt msg s =
           (if bt = Primary \<and> m_chat_id msg = MAIN_CHAT_ID cfg
            then handleChatMessage cfg gf bt msg s else s)"
  using assms by (simp add: processMessage_def earlier_command_def Let_def)

lemma handleProductUpdate_record:
  assumes "image_unresolved cfg gf bt msg"
    and "st_products (localStorage s) (cmd_id pd) = Some d"
    and "cmd_id pd \<noteq> []"
  shows "st_products (localStorage (handleProductUpdate cfg gf bt msg pd s)) (cmd_id pd) =
           Some \<lparr>p_name = cmd_name pd, p_description = cmd_description pd,
                 p_priceCUP = cmd_priceCUP pd, p_priceMLC = cmd_priceMLC pd,
                 p_imageUrl = or_null (p_imageUrl d)\<rparr>"
  using assms
  by (auto simp: handleProductUpdate_def image_unresolved_def Let_def logSystemMessage_def
        loadProductData_def saveProductData_def)

lemma or_null_id: "x \<noteq> Some [] \<Longrightarrow> or_null x = x"
  by (simp add: or_null_def split: option.splits)

lemma upsert_keeps_image:
  assumes "\<not> earlier_command (str_or_empty (m_text msg))"
    and "parseProductCommand (command_source msg) = Some pd"
    and "image_unresolved cfg gf bt msg"
    and "st_products (localStorage s) (cmd_id pd) = Some d"
    and "p_imageUrl d \<noteq> Some []"
  shows "st_products (localStorage (processMessage cfg gf bt msg s)) (cmd_id pd) =
           Some \<lparr>p_name = cmd_name pd, p_description = cmd_description pd,
                 p_priceCUP = cmd_priceCUP pd, p_priceMLC = cmd_priceMLC pd,
                 p_imageUrl = p_imageUrl d\<rparr>"
proof -
  from assms(2) have "cmd_id pd \<noteq> []"
    using parse_id by (auto simp: all_digits_def)
  with assms show ?thesis
    by (simp add: processMessage_product handleProductUpdate_record or_null_id)
qed

lemma one_source_not_earlier:
  assumes "m_text msg = None \<or> \<not> truthy_str (m_caption msg)"
    and "parseProductCommand (command_source msg) = Some pd"
  shows "\<not> earlier_command (str_or_empty (m_text msg))"
proof (cases "m_text msg")
  case None
  then show ?thesis
    by (simp add: str_or_empty_def earlier_command_def startsWith_def)
next
  case (Some t)
  show ?thesis
  proof (cases "truthy_str (m_caption msg)")
    case True
    with assms(1) Some show ?thesis by simp
  next
    case False
    with assms(2) have "parseProductCommand (str_or_empty (m_text msg)) = Some pd"
      by (simp add: command_source_def)
    then show ?thesis
      by (intro dulces_not_earlier parse_startsWith)
  qed
qed

text \<open>
  Claim C8. When a message carries a product command and no image (no photo, or a photo
  whose path does not resolve) and a record is stored under the id of the command, the
  record stored afterwards has the name, the description and the prices of the command
  and the image of the old record. The text of the message must not be one of the
  earlier commands, which is always so when the message has no text or no caption.
\<close>

theorem upsert_without_image_keeps_image:
  "(\<not> earlier_command (str_or_empty (m_text msg)) \<and>
    parseProductCommand (command_source msg) = Some pd \<and>
    image_unresolved cfg gf bt msg \<and>
    st_products (localStorage s) (cmd_id pd) = Some d \<and>
    p_imageUrl d \<noteq> Some [] \<longrightarrow>
      st_products (localStorage (processMessage cfg gf bt msg s)) (cmd_id pd) =
        Some \<lparr>p_name = cmd_name pd, p_description = cmd_description pd,
              p_priceCUP = cmd_priceCUP pd, p_priceMLC = cmd_priceMLC pd,
              p_imageUrl = p_imageUrl d\<rparr>)
   \<and> ((m_text msg = None \<or> \<not> truthy_str (m_caption msg)) \<and>
       parseProductCommand (command_source msg) = Some pd \<longrightarrow>
         \<not> earlier_command (str_or_empty (m_text msg)))"
  using upsert_keeps_image [of msg pd cfg gf bt s d] one_source_not_earlier [of msg pd]
  by blast

theorem upsert_without_image_keeps_image_witness:
  "st_products (localStorage (processMessage example_config no_files Primary
       (text_message ''100'' ''*DULCES*42*Caramelo*Rico*10,50 CUP 2 MLC*'') page_with_42)) ''42''
     = Some \<lparr>p_name = ''Caramelo'', p_description = ''Rico'', p_priceCUP = Some (21 / 2),
             p_priceMLC = Some 2, p_imageUrl = Some ''https://img/42.jpg''\<rparr>"
proof -
  let ?m = "text_message ''100'' ''*DULCES*42*Caramelo*Rico*10,50 CUP 2 MLC*''"
  let ?pd = "\<lparr>cmd_id = ''42'', cmd_name = ''Caramelo'', cmd_description = ''Rico'',
              cmd_priceCUP = Some (21 / 2), cmd_priceMLC = Some 2\<rparr>"
  let ?d = "\<lparr>p_name = ''Viejo'', p_description = ''Antes'', p_priceCUP = Some 1,
             p_priceMLC = None, p_imageUrl = Some ''https://img/42.jpg''\<rparr>"
  have src: "command_source ?m = ''*DULCES*42*Caramelo*Rico*10,50 CUP 2 MLC*''"
    by (simp add: command_source_def text_message_def truthy_str_def or_null_def str_or_empty_def)
  have parse: "parseProductCommand (command_source ?m) = Some ?pd"
    by (simp only: src parse_example)
  have one: "m_text ?m = None \<or> \<not> truthy_str (m_caption ?m)"
    by (simp add: text_message_def truthy_str_def or_null_def)
  from one parse upsert_without_image_keeps_image [of ?m ?pd]
  have ne: "\<not> earlier_command (str_or_empty (m_text ?m))"
    by blast
  have img: "image_unresolved example_config no_files Primary ?m"
    by (simp add: image_unresolved_def text_message_def photo_or_empty_def)
  have old: "st_products (localStorage page_with_42) (cmd_id ?pd) = Some ?d \<and> p_imageUrl ?d \<noteq> Some []"
    by (simp add: page_with_42_def init_page_def empty_storage_def)
  from ne parse img old
    upsert_without_image_keeps_image [of ?m ?pd example_config no_files Primary page_with_42 ?d]
  have "st_products (localStorage (processMessage example_config no_files Primary ?m page_with_42)) (cmd_id ?pd)
      = Some \<lparr>p_name = cmd_name ?pd, p_description = cmd_description ?pd,
              p_priceCUP = cmd_priceCUP ?pd, p_priceMLC = cmd_priceMLC ?pd,
              p_imageUrl = p_imageUrl ?d\<rparr>"
    by blast
  then show ?thesis by simp
qed

section \<open>The cursors over a run of fetches\<close>

subsection \<open>What the steps of a fetch leave alone\<close>

lemma cursor_trace: "trace_vars s = trace_vars t \<Longrightarrow> cursor bt s = cursor bt t"
  by (cases bt) (simp_all add: trace_vars_def cursor_def)

lemma requests_trace: "trace_vars s = trace_vars t \<Longrightarrow> requests s = requests t"
  by (simp add: trace_vars_def)

lemma cursor_frame [simp]:
  "cursor bt (scheduleNextPrimaryPoll d s) = cursor bt s"
  "cursor bt (scheduleNextAuxiliaryPoll d s) = cursor bt s"
  "cursor bt (primary_finally s) = cursor bt s"
  "cursor bt (auxiliary_finally s) = cursor bt s"
  "cursor bt (log_in_state lv sn s) = cursor bt s"
  "cursor bt (getPrimaryBotMe env s) = cursor bt s"
  "cursor bt (getAuxiliaryBotMe cfg env s) = cursor bt s"
  "cursor bt (clearTimeout t s) = cursor bt s"
  "cursor bt (expire h s) = cursor bt s"
  by (rule cursor_trace, simp add: trace_vars_def clearTimeout_def expire_def
        scheduleNextPrimaryPoll_def scheduleNextAuxiliaryPoll_def
        setTimeout_def log_in_state_def getPrimaryBotMe_def getAuxiliaryBotMe_def
        primary_finally_def auxiliary_finally_def
        Let_def split: handle.splits option.splits)+

lemma cursor_fields [simp]:
  "cursor bt (s\<lparr>disconnected := b\<rparr>) = cursor bt s"
  "cursor bt (s\<lparr>page := p\<rparr>) = cursor bt s"
  "cursor bt (s\<lparr>requests := r\<rparr>) = cursor bt s"
  "cursor bt (s\<lparr>primaryUpdateInterval := h\<rparr>) = cursor bt s"
  "cursor bt (s\<lparr>auxiliaryUpdateInterval := h\<rparr>) = cursor bt s"
  by (simp_all add: cursor_def split: bot_type.splits)

lemma cursor_end [simp]:
  "cursor bt (schedule_retry c s) = cursor bt s"
  "cursor bt (fetch_finally c s) = cursor bt s"
  by (simp_all add: schedule_retry_def fetch_finally_def split: bot_type.splits)


lemma requests_frame [simp]:
  "requests (scheduleNextPrimaryPoll d s) = requests s"
  "requests (scheduleNextAuxiliaryPoll d s) = requests s"
  "requests (primary_finally s) = requests s"
  "requests (auxiliary_finally s) = requests s"
  "requests (log_in_state lv sn s) = requests s"
  "requests (getPrimaryBotMe env s) = requests s"
  "requests (getAuxiliaryBotMe cfg env s) = requests s"
  "requests (clearTimeout t s) = requests s"
  "requests (expire h s) = requests s"
  "requests (schedule_retry c s) = requests s"
  "requests (fetch_finally c s) = requests s"
  "requests (advance_cursor c n s) = requests s"
  "requests (processUpdate cfg gf c s u) = requests s"
  by (simp_all add: scheduleNextPrimaryPoll_def scheduleNextAuxiliaryPoll_def
        setTimeout_def log_in_state_def getPrimaryBotMe_def getAuxiliaryBotMe_def
        primary_finally_def auxiliary_finally_def clearTimeout_def expire_def
        schedule_retry_def fetch_finally_def advance_cursor_def processUpdate_def
        Let_def split: handle.splits option.splits bot_type.splits)


subsection \<open>Updates that wait for no file\<close>

lemma handlers_need_photo:
  assumes "photo_or_empty (m_photo msg) = []"
  shows "handleProductUpdate cfg gf bt msg pd p = handleProductUpdate cfg gf' bt msg pd p"
    and "handleChatMessage cfg gf bt msg p = handleChatMessage cfg gf' bt msg p"
  using assms by (simp_all add: handleProductUpdate_def handleChatMessage_def Let_def)

lemma processMessage_earlier:
  assumes "earlier_command (str_or_empty (m_text msg))"
  shows "processMessage cfg gf bt msg p = processMessage cfg gf' bt msg p"
  using assms unfolding processMessage_def Let_def earlier_command_def
  by auto

lemma processMessage_sync:
  assumes "earlier_command (str_or_empty (m_text msg)) \<or> photo_or_empty (m_photo msg) = [] \<or>
     ((if command_source msg \<noteq> [] then parseProductCommand (command_source msg) else None) = None
      \<and> \<not> (bt = Primary \<and> m_chat_id msg = MAIN_CHAT_ID cfg))"
  shows "processMessage cfg gf bt msg p = processMessage cfg gf' bt msg p"
proof (cases "earlier_command (str_or_empty (m_text msg))")
  case True
  then show ?thesis by (rule processMessage_earlier)
next
  case False
  show ?thesis
  proof (cases "parseProductCommand (command_source msg)")
    case None
    with False assms show ?thesis
      using handlers_need_photo(2) [of msg cfg gf bt p gf']
      by (auto simp: processMessage_plain)
  next
    case (Some pd)
    then have "command_source msg \<noteq> []" using parse_Nil by auto
    with False Some assms show ?thesis
      using handlers_need_photo(1) [of msg cfg gf bt pd p gf']
      by (auto simp: processMessage_product)
  qed
qed

lemma processUpdate_sync:
  assumes "\<not> awaits_file cfg bt u"
  shows "processUpdate cfg gf bt s u = processUpdate cfg gf' bt s u"
proof (cases "u_message u")
  case None
  then show ?thesis by (simp add: processUpdate_unfold)
next
  case (Some msg)
  show ?thesis
  proof (cases "foreign_chat cfg bt msg")
    case True
    with Some show ?thesis by (simp add: processUpdate_unfold)
  next
    case False
    with assms Some have "processMessage cfg gf bt msg (page s) = processMessage cfg gf' bt msg (page s)"
      by (intro processMessage_sync) (auto simp: awaits_file_def)
    with Some False show ?thesis by (simp add: processUpdate_unfold)
  qed
qed

lemma processUpdate_awaited:
  assumes "awaits_file cfg bt u"
  shows "processUpdate cfg gf bt s u =
     (case u_message u of
        None \<Rightarrow> advance_cursor bt (update_id u) s
      | Some msg \<Rightarrow> (advance_cursor bt (update_id u) s)
          \<lparr>page := processMessage cfg gf bt msg (page (advance_cursor bt (update_id u) s))\<rparr>)"
proof -
  from assms obtain msg where "u_message u = Some msg" "\<not> foreign_chat cfg bt msg"
    by (auto simp: awaits_file_def split: option.splits)
  then show ?thesis
    by (cases bt) (simp_all add: processUpdate_unfold advance_cursor_def)
qed

subsection \<open>One step\<close>



















subsection \<open>A run\<close>

lemma run_Cons: "run cfg (ev # evs) sys = run cfg evs (step cfg sys ev)"
  by (simp add: run_def)






subsection \<open>The requests\<close>







lemma step_calls:
  assumes "fetch_guard cfg bt s"
  shows "step cfg (s, ts) (Calls bt) =
     ((case bt of Primary \<Rightarrow> expire (primaryUpdateInterval s) s
       | Auxiliary \<Rightarrow> expire (auxiliaryUpdateInterval s) s)
        \<lparr>requests := requests s @ [(bt, cursor bt s + 1)]\<rparr>,
      ts @ [\<lparr>t_bot = bt, t_refresh = False, t_stage = AwaitUpdates (cursor bt s + 1)\<rparr>])"
proof -
  define s1 where "s1 = (case bt of Primary \<Rightarrow> expire (primaryUpdateInterval s) s
                         | Auxiliary \<Rightarrow> expire (auxiliaryUpdateInterval s) s)"
  have g: "fetch_guard cfg bt s1 = fetch_guard cfg bt s"
    by (cases bt) (simp_all add: s1_def fetch_guard_def expire_def clearTimeout_def split: handle.splits)
  have c: "cursor bt s1 = cursor bt s"
    by (cases bt) (simp_all add: s1_def)
  have r: "requests s1 = requests s"
    by (cases bt) (simp_all add: s1_def)
  have "step cfg (s, ts) (Calls bt) = start_fetch cfg bt False (s1, ts)"
    by (simp add: step_def s1_def)
  also have "\<dots> = (s1\<lparr>requests := requests s1 @ [(bt, cursor bt s1 + 1)]\<rparr>,
      ts @ [\<lparr>t_bot = bt, t_refresh = False, t_stage = AwaitUpdates (cursor bt s1 + 1)\<rparr>])"
    using assms g by (simp add: start_fetch_def Let_def)
  finally show ?thesis
    unfolding c r by (simp only: s1_def)
qed


subsection \<open>A fetch that nothing interrupts\<close>

text \<open>
  A call of a fetch function followed by the answers to its requests, with no other
  event in between, ends in the state \<open>fetchPrimaryUpdates\<close> (\<open>fetchAuxiliaryUpdates\<close>)
  gives, with no fetch waiting.
\<close>

lemma run_idle: "run cfg (replicate n (Resumes 0 env)) (s, []) = (s, [])"
  by (induction n) (simp_all add: run_def step_def)

lemma continue_batch_cong:
  fixes a b :: fetch_task
  assumes "t_bot a = t_bot b" "t_refresh a = t_refresh b"
  shows "continue_batch cfg a us sys = continue_batch cfg b us sys"
proof -
  have "a\<lparr>t_stage := x\<rparr> = b\<lparr>t_stage := x\<rparr>" for x
    using assms by (cases a; cases b) simp
  with assms show ?thesis
    by (induction us arbitrary: sys) (simp_all add: finish_fetch_def)
qed

lemma continue_batch_stage:
  "continue_batch cfg (task\<lparr>t_stage := x\<rparr>) us sys = continue_batch cfg task us sys"
  by (rule continue_batch_cong) simp_all

lemma processUpdates_Cons:
  "processUpdates cfg gf bt (u # us) s = processUpdates cfg gf bt us (processUpdate cfg gf bt s u)"
  by (simp add: processUpdates_def)

lemma batch_uninterrupted:
  assumes "\<not> t_refresh task" "length us \<le> n"
  shows "run cfg (replicate n (Resumes 0 env)) (continue_batch cfg task us (s, [])) =
         (fetch_finally (t_bot task) (processUpdates cfg (env_getFile env) (t_bot task) us s), [])"
  using assms(2)
proof (induction us arbitrary: s n)
  case Nil
  with assms(1) show ?case
    by (simp add: finish_fetch_def run_idle processUpdates_def)
next
  case (Cons u rest)
  show ?case
  proof (cases "awaits_file cfg (t_bot task) u")
    case False
    then have "processUpdate cfg (\<lambda>useAux file_id. None) (t_bot task) s u =
        processUpdate cfg (env_getFile env) (t_bot task) s u"
      by (rule processUpdate_sync)
    moreover from Cons.prems have "length rest \<le> n" by simp
    ultimately show ?thesis
      using False Cons.IH [of n "processUpdate cfg (env_getFile env) (t_bot task) s u"]
      by (simp add: processUpdates_Cons)
  next
    case True
    from Cons.prems obtain m where n: "n = Suc m" and m: "length rest \<le> m"
      by (cases n) simp_all
    let ?adv = "advance_cursor (t_bot task) (update_id u) s"
    let ?task = "task\<lparr>t_stage := AwaitFile u rest\<rparr>"
    have "step cfg (?adv, [?task]) (Resumes 0 env) =
        continue_batch cfg task rest (processUpdate cfg (env_getFile env) (t_bot task) s u, [])"
      using True
      by (simp add: step_def resume_def Let_def continue_batch_stage processUpdate_awaited
            split: option.splits)
    with True m show ?thesis
      using Cons.IH [of m "processUpdate cfg (env_getFile env) (t_bot task) s u"]
      by (simp add: n run_Cons processUpdates_Cons)
  qed
qed

lemma primary_uninterrupted:
  assumes "n = (case env_getUpdates env False (lastPrimaryUpdateId s + 1) of
                  FetchUpdates us \<Rightarrow> length us + 2 | _ \<Rightarrow> 2)"
  shows "run cfg (Calls Primary # replicate n (Resumes 0 env)) (s, []) =
         (fetchPrimaryUpdates cfg env (expire (primaryUpdateInterval s) s), [])"
proof (cases "truthy_handle (primaryUpdateInterval s)")
  case False
  let ?e = "expire (primaryUpdateInterval s) s"
  have e: "primaryUpdateInterval ?e = primaryUpdateInterval s"
    by (simp add: expire_def clearTimeout_def split: handle.splits)
  with False have "step cfg (s, []) (Calls Primary) = (?e, [])"
    by (simp add: step_def start_fetch_def fetch_guard_def)
  moreover from False e have "fetchPrimaryUpdates cfg env ?e = ?e"
    by (simp add: fetchPrimaryUpdates_def)
  ultimately show ?thesis
    by (simp add: run_Cons run_idle)
next
  case True
  let ?e = "expire (primaryUpdateInterval s) s"
  let ?off = "lastPrimaryUpdateId s + 1"
  let ?s0 = "?e\<lparr>requests := requests ?e @ [(Primary, ?off)]\<rparr>"
  let ?task = "\<lparr>t_bot = Primary, t_refresh = False, t_stage = AwaitUpdates ?off\<rparr>"
  have e: "lastPrimaryUpdateId ?e = lastPrimaryUpdateId s" "primaryUpdateInterval ?e = primaryUpdateInterval s"
    "requests ?e = requests s"
    by (simp_all add: expire_def clearTimeout_def split: handle.splits)
  from True have st: "step cfg (s, []) (Calls Primary) = (?s0, [?task])"
    using step_calls [of cfg Primary s "[]"] by (simp add: fetch_guard_def cursor_def e)
  obtain m where n: "n = Suc (Suc m)"
    using assms by (cases "env_getUpdates env False ?off") simp_all
  have unf: "run cfg (Calls Primary # replicate n (Resumes 0 env)) (s, []) =
      run cfg (replicate (Suc m) (Resumes 0 env)) (step cfg (?s0, [?task]) (Resumes 0 env))"
    by (simp only: n replicate_Suc run_Cons st)
  have res: "step cfg (?s0, [?task]) (Resumes 0 env) = resume cfg env ?task (?s0, [])"
    by (simp add: step_def)
  show ?thesis
  proof (cases "env_getUpdates env False ?off")
    case FetchThrows
    with True have "fetchPrimaryUpdates cfg env ?e =
        primary_finally (scheduleNextPrimaryPoll 15000 (log_in_state LogError ''Sistema (Primario)'' ?s0))"
      by (simp add: fetchPrimaryUpdates_def Let_def e)
    moreover from FetchThrows have "resume cfg env ?task (?s0, []) =
        (primary_finally (scheduleNextPrimaryPoll 15000 (log_in_state LogError ''Sistema (Primario)'' ?s0)), [])"
      by (simp add: resume_def Let_def finish_fetch_def fetch_finally_def schedule_retry_def logPrefix_def)
    ultimately show ?thesis
      by (simp only: unf res run_idle)
  next
    case FetchNull
    with True have "fetchPrimaryUpdates cfg env ?e = primary_finally (scheduleNextPrimaryPoll 15000 ?s0)"
      by (simp add: fetchPrimaryUpdates_def Let_def e)
    moreover from FetchNull have "resume cfg env ?task (?s0, []) =
        (primary_finally (scheduleNextPrimaryPoll 15000 ?s0), [])"
      by (simp add: resume_def Let_def finish_fetch_def fetch_finally_def schedule_retry_def)
    ultimately show ?thesis
      by (simp only: unf res run_idle)
  next
    case (FetchUpdates us)
    with assms n have m: "m = length us" by simp
    define s1 where "s1 = (if us \<noteq> [] \<and> disconnected ?s0
                               then (if primaryBotInfo ?s0 \<noteq> None then ?s0\<lparr>disconnected := False\<rparr>
                                     else getPrimaryBotMe env ?s0)
                               else ?s0)"
    have atomic: "fetchPrimaryUpdates cfg env ?e =
        primary_finally (processUpdates cfg (env_getFile env) Primary us s1)"
      using True FetchUpdates by (simp add: fetchPrimaryUpdates_def Let_def s1_def e)
    have bat: "length us \<le> k \<Longrightarrow>
        run cfg (replicate k (Resumes 0 env)) (continue_batch cfg ?task us (x, [])) =
        (primary_finally (processUpdates cfg (env_getFile env) Primary us x), [])" for k x
      using batch_uninterrupted [of ?task us k cfg env x] by (simp add: fetch_finally_def)
    show ?thesis
    proof (cases "us \<noteq> [] \<and> disconnected ?s0 \<and> primaryBotInfo ?s0 = None")
      case True
      let ?wait = "\<lparr>t_bot = Primary, t_refresh = False, t_stage = AwaitBotMe us\<rparr>"
      let ?R = "\<lambda>k. replicate k (Resumes 0 env)"
      from True FetchUpdates have r1: "resume cfg env ?task (?s0, []) = (?s0, [?wait])"
        by (simp add: resume_def Let_def)
      have r2: "step cfg (?s0, [?wait]) (Resumes 0 env) =
          continue_batch cfg ?task us (getPrimaryBotMe env ?s0, [])"
        by (simp add: step_def resume_def Let_def) (rule continue_batch_cong, simp_all)
      from True have s1: "s1 = getPrimaryBotMe env ?s0" by (simp add: s1_def)
      have "run cfg (?R (Suc m)) (step cfg (?s0, [?task]) (Resumes 0 env)) =
          run cfg (?R m) (step cfg (?s0, [?wait]) (Resumes 0 env))"
        by (simp only: res r1 replicate_Suc run_Cons)
      also have "\<dots> = run cfg (?R m) (continue_batch cfg ?task us (s1, []))"
        by (simp only: r2 s1)
      also have "\<dots> = (primary_finally (processUpdates cfg (env_getFile env) Primary us s1), [])"
        using m by (intro bat) simp
      finally show ?thesis
        by (simp only: unf atomic)
    next
      case False
      let ?R = "\<lambda>k. replicate k (Resumes 0 env)"
      from False FetchUpdates have r1: "resume cfg env ?task (?s0, []) = continue_batch cfg ?task us (s1, [])"
        by (auto simp: resume_def Let_def s1_def)
      have "run cfg (?R (Suc m)) (step cfg (?s0, [?task]) (Resumes 0 env)) =
          run cfg (?R (Suc m)) (continue_batch cfg ?task us (s1, []))"
        by (simp only: res r1)
      also have "\<dots> = (primary_finally (processUpdates cfg (env_getFile env) Primary us s1), [])"
        using m by (intro bat) simp
      finally show ?thesis
        by (simp only: unf atomic)
    qed
  qed
qed

lemma auxiliary_uninterrupted:
  assumes "n = (case env_getUpdates env True (lastAuxiliaryUpdateId s + 1) of
                  FetchUpdates us \<Rightarrow> length us + 2 | _ \<Rightarrow> 2)"
  shows "run cfg (Calls Auxiliary # replicate n (Resumes 0 env)) (s, []) =
         (fetchAuxiliaryUpdates cfg env (expire (auxiliaryUpdateInterval s) s), [])"
proof (cases "fetch_guard cfg Auxiliary s")
  case False
  let ?e = "expire (auxiliaryUpdateInterval s) s"
  have e: "auxiliaryUpdateInterval ?e = auxiliaryUpdateInterval s"
    by (simp add: expire_def clearTimeout_def split: handle.splits)
  with False have "step cfg (s, []) (Calls Auxiliary) = (?e, [])"
    by (simp add: step_def start_fetch_def fetch_guard_def)
  moreover from False e have "fetchAuxiliaryUpdates cfg env ?e = ?e"
    by (auto simp add: fetchAuxiliaryUpdates_def fetch_guard_def)
  ultimately show ?thesis
    by (simp add: run_Cons run_idle)
next
  case True
  let ?e = "expire (auxiliaryUpdateInterval s) s"
  let ?off = "lastAuxiliaryUpdateId s + 1"
  let ?s0 = "?e\<lparr>requests := requests ?e @ [(Auxiliary, ?off)]\<rparr>"
  let ?task = "\<lparr>t_bot = Auxiliary, t_refresh = False, t_stage = AwaitUpdates ?off\<rparr>"
  let ?R = "\<lambda>k. replicate k (Resumes 0 env)"
  have e: "lastAuxiliaryUpdateId ?e = lastAuxiliaryUpdateId s"
    "auxiliaryUpdateInterval ?e = auxiliaryUpdateInterval s" "requests ?e = requests s"
    by (simp_all add: expire_def clearTimeout_def split: handle.splits)
  from True have guard: "truthy_handle (auxiliaryUpdateInterval s)" "truthy_str (EFFECTIVE_AUX_BOT_TOKEN cfg)"
    "truthy_str (AUX_CHAT_ID cfg)"
    by (simp_all add: fetch_guard_def)
  from True have st: "step cfg (s, []) (Calls Auxiliary) = (?s0, [?task])"
    using step_calls [of cfg Auxiliary s "[]"] by (simp add: cursor_def e)
  obtain m where n: "n = Suc (Suc m)"
    using assms by (cases "env_getUpdates env True ?off") simp_all
  have unf: "run cfg (Calls Auxiliary # ?R n) (s, []) =
      run cfg (?R (Suc m)) (step cfg (?s0, [?task]) (Resumes 0 env))"
    by (simp only: n replicate_Suc run_Cons st)
  have res: "step cfg (?s0, [?task]) (Resumes 0 env) = resume cfg env ?task (?s0, [])"
    by (simp add: step_def)
  show ?thesis
  proof (cases "env_getUpdates env True ?off")
    case FetchThrows
    with guard have "fetchAuxiliaryUpdates cfg env ?e =
        auxiliary_finally (scheduleNextAuxiliaryPoll 15000 (log_in_state LogError ''Sistema (Auxiliar)'' ?s0))"
      by (simp add: fetchAuxiliaryUpdates_def Let_def e)
    moreover from FetchThrows have "resume cfg env ?task (?s0, []) =
        (auxiliary_finally (scheduleNextAuxiliaryPoll 15000 (log_in_state LogError ''Sistema (Auxiliar)'' ?s0)), [])"
      by (simp add: resume_def Let_def finish_fetch_def fetch_finally_def schedule_retry_def logPrefix_def)
    ultimately show ?thesis
      by (simp only: unf res run_idle)
  next
    case FetchNull
    with guard have "fetchAuxiliaryUpdates cfg env ?e = auxiliary_finally (scheduleNextAuxiliaryPoll 15000 ?s0)"
      by (simp add: fetchAuxiliaryUpdates_def Let_def e)
    moreover from FetchNull have "resume cfg env ?task (?s0, []) =
        (auxiliary_finally (scheduleNextAuxiliaryPoll 15000 ?s0), [])"
      by (simp add: resume_def Let_def finish_fetch_def fetch_finally_def schedule_retry_def)
    ultimately show ?thesis
      by (simp only: unf res run_idle)
  next
    case (FetchUpdates us)
    with assms n have m: "m = length us" by simp
    define s1 where "s1 = (if us \<noteq> [] \<and> auxiliaryBotInfo ?s0 = None
                               then getAuxiliaryBotMe cfg env ?s0 else ?s0)"
    have atomic: "fetchAuxiliaryUpdates cfg env ?e =
        auxiliary_finally (processUpdates cfg (env_getFile env) Auxiliary us s1)"
      using guard FetchUpdates by (simp add: fetchAuxiliaryUpdates_def Let_def s1_def e)
    have bat: "length us \<le> k \<Longrightarrow>
        run cfg (?R k) (continue_batch cfg ?task us (x, [])) =
        (auxiliary_finally (processUpdates cfg (env_getFile env) Auxiliary us x), [])" for k x
      using batch_uninterrupted [of ?task us k cfg env x] by (simp add: fetch_finally_def)
    show ?thesis
    proof (cases "us \<noteq> [] \<and> auxiliaryBotInfo ?s0 = None")
      case True
      let ?wait = "\<lparr>t_bot = Auxiliary, t_refresh = False, t_stage = AwaitBotMe us\<rparr>"
      from True FetchUpdates have r1: "resume cfg env ?task (?s0, []) = (?s0, [?wait])"
        by (simp add: resume_def Let_def)
      have r2: "step cfg (?s0, [?wait]) (Resumes 0 env) =
          continue_batch cfg ?task us (getAuxiliaryBotMe cfg env ?s0, [])"
        by (simp add: step_def resume_def Let_def) (rule continue_batch_cong, simp_all)
      from True have s1: "s1 = getAuxiliaryBotMe cfg env ?s0" by (simp add: s1_def)
      have "run cfg (?R (Suc m)) (step cfg (?s0, [?task]) (Resumes 0 env)) =
          run cfg (?R m) (step cfg (?s0, [?wait]) (Resumes 0 env))"
        by (simp only: res r1 replicate_Suc run_Cons)
      also have "\<dots> = run cfg (?R m) (continue_batch cfg ?task us (s1, []))"
        by (simp only: r2 s1)
      also have "\<dots> = (auxiliary_finally (processUpdates cfg (env_getFile env) Auxiliary us s1), [])"
        using m by (intro bat) simp
      finally show ?thesis
        by (simp only: unf atomic)
    next
      case False
      from False FetchUpdates have r1: "resume cfg env ?task (?s0, []) = continue_batch cfg ?task us (s1, [])"
        by (auto simp: resume_def Let_def s1_def)
      have "run cfg (?R (Suc m)) (step cfg (?s0, [?task]) (Resumes 0 env)) =
          run cfg (?R (Suc m)) (continue_batch cfg ?task us (s1, []))"
        by (simp only: res r1)
      also have "\<dots> = (auxiliary_finally (processUpdates cfg (env_getFile env) Auxiliary us s1), [])"
        using m by (intro bat) simp
      finally show ?thesis
        by (simp only: unf atomic)
    qed
  qed
qed

subsection \<open>The cursor\<close>




section \<open>Texts that start with an asterisk\<close>
















end
